theory Spec2Isabelle
  imports Complex_Main
begin

section \<open>The AOTF controller of \<open>hardware/aods_controller.py\<close>\<close>

text \<open>
  The class \<open>AOTF\<close> drives a Crystal Technology acousto-optic filter through the vendor
  library \<open>AotfLibrary.dll\<close>. The library, the clock (\<open>time.perf_counter\<close>,
  \<open>time.sleep\<close>) and Python's formatting of a float are not code of the repository:
  they are the fields of a record \<open>driver\<close>, over an arbitrary type \<open>'d\<close> of states of
  the outside world. Every method of the class becomes a function that takes the driver,
  the object (\<open>aotf\<close>) and the world, and returns its result with the new world; a
  \<open>raise\<close> is the \<open>Inl\<close> of a sum.

  Python floats are read as the real numbers they denote (rounding and overflow are not
  modelled); the one not-a-number that the program itself can produce is kept as \<open>PyNaN\<close>.
  A Python \<open>str\<close> is a list of characters, one per code point, so that \<open>len\<close> is the
  length of the list; the type holds the code points up to U+00FF. The bytes that go
  through the library are a list of 8-bit characters too, and the codec between the two
  (\<open>str.encode\<close>, \<open>bytes.decode\<close>) is part of the driver.
\<close>

subsection \<open>Errors\<close>

datatype error =
    NotOpen            \<comment> \<open>IOError of \<open>_check_handle\<close>\<close>
  | WriteFailed        \<comment> \<open>IOError of \<open>_write\<close>: AotfWrite returned 0\<close>
  | ReadFailed         \<comment> \<open>IOError of \<open>_read\<close>: AotfRead returned 0\<close>
  | OpenFailed int     \<comment> \<open>IOError of \<open>open\<close>, with the controller index\<close>
  | CloseFailed        \<comment> \<open>IOError of \<open>close\<close>: AotfClose returned 0\<close>
  | InvalidChannel     \<comment> \<open>ValueError of \<open>_check_channel\<close>\<close>
  | IndexError         \<comment> \<open>a list index out of range\<close>
  | KeyError           \<comment> \<open>a dictionary key that is absent\<close>
  | ZeroDivisionError  \<comment> \<open>a division by zero\<close>
  | EmptyCoefficients  \<comment> \<open>ValueError of numpy's \<open>Polynomial\<close> on an empty coefficient list\<close>
  | UnicodeDecodeError \<comment> \<open>\<open>bytes.decode\<close> on bytes that are not UTF-8 text\<close>

subsection \<open>Python values and builtins\<close>

datatype pynum = PyInt int | PyFloat real | PyNaN

fun py_val :: "pynum \<Rightarrow> real option" where
  "py_val (PyInt i) = Some (of_int i)"
| "py_val (PyFloat r) = Some r"
| "py_val PyNaN = None"

text \<open>\<open>a * b\<close>: two ints give an int, anything else a float.\<close>

fun py_mul :: "pynum \<Rightarrow> pynum \<Rightarrow> pynum" where
  "py_mul (PyInt a) (PyInt b) = PyInt (a * b)"
| "py_mul a b =
     (case (py_val a, py_val b) of
        (Some x, Some y) \<Rightarrow> PyFloat (x * y)
      | _ \<Rightarrow> PyNaN)"

text \<open>\<open>a / b\<close>: true division, always a float; a zero divisor raises.\<close>

definition py_truediv :: "pynum \<Rightarrow> pynum \<Rightarrow> error + pynum" where
  "py_truediv a b =
     (case py_val b of
        None \<Rightarrow> Inr PyNaN
      | Some y \<Rightarrow>
          if y = 0 then Inl ZeroDivisionError
          else (case py_val a of None \<Rightarrow> Inr PyNaN | Some x \<Rightarrow> Inr (PyFloat (x / y))))"

text \<open>
  \<open>x in portion.closed(lo, hi)\<close>: both comparisons \<open>x >= lo\<close> and \<open>x <= hi\<close> hold;
  every comparison with a not-a-number is false.
\<close>

definition in_closed :: "real \<Rightarrow> real \<Rightarrow> pynum \<Rightarrow> bool" where
  "in_closed lo hi x = (case py_val x of None \<Rightarrow> False | Some v \<Rightarrow> lo \<le> v \<and> v \<le> hi)"

text \<open>\<open>str\<close> of an int, as an f-string inserts it: decimal digits, a minus sign first.\<close>

fun nat_str :: "nat \<Rightarrow> string" where
  "nat_str n =
     (if n < 10 then [''0123456789'' ! n]
      else nat_str (n div 10) @ [''0123456789'' ! (n mod 10)])"

declare nat_str.simps [simp del]

definition int_str :: "int \<Rightarrow> string" where
  "int_str i = (if i < 0 then CHR ''-'' # nat_str (nat (- i)) else nat_str (nat i))"

text \<open>\<open>xs[i]\<close>: a negative index counts from the end; out of range raises.\<close>

definition py_getitem :: "'a list \<Rightarrow> int \<Rightarrow> error + 'a" where
  "py_getitem xs i =
     (if 0 \<le> i \<and> i < int (length xs) then Inr (xs ! nat i)
      else if i < 0 \<and> - int (length xs) \<le> i then Inr (xs ! nat (int (length xs) + i))
      else Inl IndexError)"

abbreviation CR :: char where "CR \<equiv> CHR 0x0D"
abbreviation LF :: char where "LF \<equiv> CHR 0x0A"

text \<open>
  \<open>s.split('\r\n')\<close>: the pieces of \<open>s\<close> between the occurrences of the separator, found
  from the left; a string without the separator is its own single piece.
\<close>

fun split_crlf :: "string \<Rightarrow> string list" where
  "split_crlf [] = [[]]"
| "split_crlf (c # cs) =
     (if c = CR \<and> cs \<noteq> [] \<and> hd cs = LF then [] # split_crlf (tl cs)
      else (case split_crlf cs of
              [] \<Rightarrow> [[c]]
            | l # ls \<Rightarrow> (c # l) # ls))"

text \<open>\<open>'\r\n' in s\<close>, and \<open>'\r\n'.join(pieces)\<close>.\<close>

fun contains_crlf :: "string \<Rightarrow> bool" where
  "contains_crlf [] = False"
| "contains_crlf (c # cs) = ((c = CR \<and> cs \<noteq> [] \<and> hd cs = LF) \<or> contains_crlf cs)"

fun join_crlf :: "string list \<Rightarrow> string" where
  "join_crlf [] = []"
| "join_crlf [x] = x"
| "join_crlf (x # y # ys) = x @ [CR, LF] @ join_crlf (y # ys)"

text \<open>\<open>s.lstrip(chars)\<close> and \<open>s.rstrip(chars)\<close>: \<open>chars\<close> is a set of characters.\<close>

definition lstrip :: "string \<Rightarrow> string \<Rightarrow> string" where
  "lstrip chars s = dropWhile (\<lambda>c. c \<in> set chars) s"

definition rstrip :: "string \<Rightarrow> string \<Rightarrow> string" where
  "rstrip chars s = rev (dropWhile (\<lambda>c. c \<in> set chars) (rev s))"

subsection \<open>The outside world\<close>

text \<open>
  The six entry points of the vendor library return a C int (and \<open>AotfRead\<close> the buffer
  it filled and the count it stored in \<open>nread\<close>); each may change the world.
  \<open>perf_counter\<close> reads the clock of a world, in seconds; \<open>sleep\<close> is \<open>time.sleep\<close>;
  \<open>float_str\<close> is the text an f-string inserts for a float; \<open>encode\<close> is
  \<open>str.encode()\<close>, from text to bytes, and \<open>decode\<close> is \<open>bytes.decode()\<close>, which raises
  on bytes that are not text.
\<close>

record 'd driver =
  AotfOpen :: "int \<Rightarrow> 'd \<Rightarrow> int \<times> 'd"
  AotfClose :: "int \<Rightarrow> 'd \<Rightarrow> int \<times> 'd"
  AotfWrite :: "int \<Rightarrow> nat \<Rightarrow> string \<Rightarrow> 'd \<Rightarrow> int \<times> 'd"
  AotfRead :: "int \<Rightarrow> nat \<Rightarrow> 'd \<Rightarrow> (int \<times> string \<times> nat) \<times> 'd"
  AotfIsReadDataAvailable :: "int \<Rightarrow> 'd \<Rightarrow> int \<times> 'd"
  AotfGetInstance :: "int \<Rightarrow> 'd \<Rightarrow> int \<times> 'd"
  perf_counter :: "'d \<Rightarrow> real"
  sleep :: "real \<Rightarrow> 'd \<Rightarrow> 'd"
  float_str :: "real \<Rightarrow> string"
  encode :: "string \<Rightarrow> string"
  decode :: "string \<Rightarrow> error + string"

text \<open>
  The world of a run: the state of the outside, and two logs that only record what the
  program did: the messages that \<open>_write\<close> passed on to \<open>AotfWrite\<close>, in order and as the
  text they were before encoding, and the lines printed.
\<close>

record 'd world =
  dev :: 'd
  sent :: "string list"
  stdout :: "string list"

definition py_str :: "'d driver \<Rightarrow> pynum \<Rightarrow> string" where
  "py_str drv x =
     (case x of PyInt i \<Rightarrow> int_str i | PyFloat r \<Rightarrow> float_str drv r | PyNaN \<Rightarrow> ''nan'')"

subsection \<open>The calibration polynomial\<close>

text \<open>
  \<open>numpy.polynomial.Polynomial(coeffs, domain=d, window=d)\<close>: the program always passes
  the domain as the window, so the object is its coefficients, lowest degree first, and
  its domain. An empty coefficient list is refused. A call maps the argument from the
  domain to the window by \<open>off + scl * x\<close>, with both \<open>off\<close> and \<open>scl\<close> a quotient by the
  length of the domain, and evaluates by Horner's rule; on a domain of length zero the
  quotients are 0/0, not a number.
\<close>

record polynomial =
  coef :: "real list"
  domain :: "real \<times> real"

definition Polynomial :: "real list \<Rightarrow> real \<times> real \<Rightarrow> error + polynomial" where
  "Polynomial cs d = (if cs = [] then Inl EmptyCoefficients else Inr \<lparr>coef = cs, domain = d\<rparr>)"

fun polyval :: "real \<Rightarrow> real list \<Rightarrow> real" where
  "polyval x [] = 0"
| "polyval x (c # cs) = c + x * polyval x cs"

definition Polynomial_call :: "polynomial \<Rightarrow> pynum \<Rightarrow> pynum" where
  "Polynomial_call p x =
     (let lo = fst (domain p); hi = snd (domain p); oldlen = hi - lo; newlen = hi - lo
      in if oldlen = 0 then PyNaN
         else (case py_val x of
                 None \<Rightarrow> PyNaN
               | Some v \<Rightarrow>
                   let off = (hi * lo - lo * hi) / oldlen; scl = newlen / oldlen
                   in PyFloat (polyval (off + scl * v) (coef p))))"

subsection \<open>The object\<close>

record calib_entry =
  coeffs :: "real list"
  cdomain :: "real \<times> real"

text \<open>The module-level table \<open>calibration\<close>, loaded from \<open>calibration.toml\<close>.\<close>

type_synonym calib_table = "(string \<times> calib_entry) list"

record aotf =
  handle :: "int option"
  nchannels :: int
  calibration :: "polynomial option"
  calib_ids :: "string list"
  timeout :: real
  amplitude_int_max :: int

definition AOTF_init :: "calib_table \<Rightarrow> aotf" where
  "AOTF_init table =
     \<lparr>handle = None, nchannels = 8, calibration = None, calib_ids = map fst table,
      timeout = 10, amplitude_int_max = 16383\<rparr>"

subsection \<open>Guards and transport access\<close>

definition check_handle :: "aotf \<Rightarrow> error + unit" where
  "check_handle s = (if handle s = None then Inl NotOpen else Inr ())"

text \<open>
  \<open>_write\<close>: the library receives \<open>len(message)\<close>, a count of code points, and a buffer
  that holds the encoded bytes.
\<close>

definition priv_write :: "'d driver \<Rightarrow> aotf \<Rightarrow> string \<Rightarrow> 'd world \<Rightarrow> (error + unit) \<times> 'd world" where
  "priv_write drv s message w =
     (case check_handle s of
        Inl e \<Rightarrow> (Inl e, w)
      | Inr _ \<Rightarrow>
          let buffer = encode drv message;
              (ret, d) = AotfWrite drv (the (handle s)) (length message) buffer (dev w);
              w' = w\<lparr>dev := d, sent := sent w @ [message]\<rparr>
          in if ret = 0 then (Inl WriteFailed, w') else (Inr (), w'))"

definition is_data_available :: "'d driver \<Rightarrow> aotf \<Rightarrow> 'd world \<Rightarrow> (error + bool) \<times> 'd world" where
  "is_data_available drv s w =
     (case check_handle s of
        Inl e \<Rightarrow> (Inl e, w)
      | Inr _ \<Rightarrow>
          let (ret, d) = AotfIsReadDataAvailable drv (the (handle s)) (dev w)
          in (Inr (ret \<noteq> 0), w\<lparr>dev := d\<rparr>))"

text \<open>
  \<open>buffer.value[:nread.value].decode()\<close>: the bytes of the buffer before its first NUL,
  cut to \<open>nread\<close> of them, decoded to text.
\<close>

definition priv_read :: "'d driver \<Rightarrow> aotf \<Rightarrow> nat \<Rightarrow> 'd world \<Rightarrow> (error + string) \<times> 'd world" where
  "priv_read drv s len w =
     (case check_handle s of
        Inl e \<Rightarrow> (Inl e, w)
      | Inr _ \<Rightarrow>
          (case is_data_available drv s w of
             (Inl e, w1) \<Rightarrow> (Inl e, w1)
           | (Inr avail, w1) \<Rightarrow>
               if avail then
                 let ((ret, buffer, nread), d) = AotfRead drv (the (handle s)) len (dev w1);
                     w2 = w1\<lparr>dev := d\<rparr>
                 in if ret = 0 then (Inl ReadFailed, w2)
                    else (case decode drv (take nread (takeWhile (\<lambda>c. c \<noteq> CHR 0x00) buffer)) of
                            Inl e \<Rightarrow> (Inl e, w2)
                          | Inr text \<Rightarrow> (Inr text, w2))
               else (Inr [], w1)))"

definition check_channel :: "aotf \<Rightarrow> int \<Rightarrow> error + unit" where
  "check_channel s channel =
     (if channel < 0 \<and> channel \<ge> nchannels s then Inl InvalidChannel else Inr ())"

subsection \<open>The query loop\<close>

text \<open>
  \<open>_check_message_done\<close>: the first piece of the buffer is the command and the last piece
  holds an asterisk.
\<close>

definition check_message_done :: "string \<Rightarrow> string \<Rightarrow> error + bool" where
  "check_message_done rd msg =
     (let splits = split_crlf rd
      in case py_getitem splits 0 of
           Inl e \<Rightarrow> Inl e
         | Inr first \<Rightarrow>
             if first \<noteq> msg then Inr False
             else (case py_getitem splits (- 1) of
                     Inl e \<Rightarrow> Inl e
                   | Inr final \<Rightarrow> Inr (CHR ''*'' \<in> set final)))"

text \<open>
  The \<open>while True\<close> of \<open>_loop_read\<close>, from the state at the top of an iteration: \<open>start\<close>
  is the clock reading taken before the loop, \<open>rd\<close> the buffer read so far. The loop
  has no bound of its own, so its result is an option: \<open>None\<close> is a loop that never
  returns.
\<close>

partial_function (option) loop_read_from ::
  "'d driver \<Rightarrow> aotf \<Rightarrow> string \<Rightarrow> real \<Rightarrow> string \<Rightarrow> 'd world \<Rightarrow> ((error + string) \<times> 'd world) option"
where
  "loop_read_from drv s msg start rd w =
     (case is_data_available drv s w of
        (Inl e, w1) \<Rightarrow> Some (Inl e, w1)
      | (Inr avail, w1) \<Rightarrow>
          if avail then
            (case priv_read drv s 256 w1 of
               (Inl e, w2) \<Rightarrow> Some (Inl e, w2)
             | (Inr chunk, w2) \<Rightarrow>
                 (case check_message_done (rd @ chunk) msg of
                    Inl e \<Rightarrow> Some (Inl e, w2)
                  | Inr finished \<Rightarrow>
                      if finished then
                        Some (Inr (rstrip [CR, LF, CHR ''*'', CHR '' '']
                                     (lstrip (msg @ [CR, LF]) (rd @ chunk))), w2)
                      else if perf_counter drv (dev w2) - start > timeout s then Some (Inr [], w2)
                      else loop_read_from drv s msg start (rd @ chunk) w2))
          else
            (let w2 = w1\<lparr>dev := sleep drv (1 / 10) (dev w1)\<rparr>
             in if perf_counter drv (dev w2) - start > timeout s then Some (Inr [], w2)
                else loop_read_from drv s msg start rd w2))"

declare loop_read_from.simps [code]

definition loop_read ::
  "'d driver \<Rightarrow> aotf \<Rightarrow> string \<Rightarrow> 'd world \<Rightarrow> ((error + string) \<times> 'd world) option" where
  "loop_read drv s msg w = loop_read_from drv s msg (perf_counter drv (dev w)) [] w"

definition query ::
  "'d driver \<Rightarrow> aotf \<Rightarrow> string \<Rightarrow> 'd world \<Rightarrow> ((error + string) \<times> 'd world) option" where
  "query drv s msg w =
     (case priv_write drv s (msg @ [CR]) w of
        (Inl e, w1) \<Rightarrow> Some (Inl e, w1)
      | (Inr _, w1) \<Rightarrow> loop_read drv s msg w1)"

definition "write" :: "'d driver \<Rightarrow> aotf \<Rightarrow> string \<Rightarrow> 'd world \<Rightarrow> (error + unit) \<times> 'd world" where
  "write drv s msg w = priv_write drv s (msg @ [CR]) (w\<lparr>stdout := stdout w @ [msg]\<rparr>)"

subsection \<open>Handle lifecycle\<close>

definition "open" ::
  "'d driver \<Rightarrow> aotf \<Rightarrow> int \<Rightarrow> 'd world \<Rightarrow> (error + unit) \<times> aotf \<times> 'd world" where
  "open drv s controller_index w =
     (let (ret, d) = AotfOpen drv controller_index (dev w); w' = w\<lparr>dev := d\<rparr>
      in if ret \<noteq> 0 then (Inr (), s\<lparr>handle := Some ret\<rparr>, w')
         else (Inl (OpenFailed controller_index), s, w'))"

definition close :: "'d driver \<Rightarrow> aotf \<Rightarrow> 'd world \<Rightarrow> (error + unit) \<times> aotf \<times> 'd world" where
  "close drv s w =
     (case check_handle s of
        Inl e \<Rightarrow> (Inl e, s, w)
      | Inr _ \<Rightarrow>
          let (ret, d) = AotfClose drv (the (handle s)) (dev w); w' = w\<lparr>dev := d\<rparr>
          in if ret = 0 then (Inl CloseFailed, s, w')
             else (Inr (), s\<lparr>handle := None\<rparr>, w'))"

subsection \<open>Commands\<close>

definition get_serial ::
  "'d driver \<Rightarrow> aotf \<Rightarrow> 'd world \<Rightarrow> ((error + string) \<times> 'd world) option" where
  "get_serial drv s w = query drv s ''BoardId Serial'' w"

definition get_date ::
  "'d driver \<Rightarrow> aotf \<Rightarrow> 'd world \<Rightarrow> ((error + string) \<times> 'd world) option" where
  "get_date drv s w = query drv s ''BoardId Date'' w"

definition reset :: "'d driver \<Rightarrow> aotf \<Rightarrow> 'd world \<Rightarrow> (error + unit) \<times> 'd world" where
  "reset drv s w = write drv s ''dds reset'' w"

definition set_acoustic_frequency_MHz ::
  "'d driver \<Rightarrow> aotf \<Rightarrow> pynum \<Rightarrow> int \<Rightarrow> 'd world \<Rightarrow> (error + unit) \<times> 'd world" where
  "set_acoustic_frequency_MHz drv s frequency channel w =
     (case check_channel s channel of
        Inl e \<Rightarrow> (Inl e, w)
      | Inr _ \<Rightarrow>
          write drv s (''Dds Frequency '' @ int_str channel @ '' '' @ py_str drv frequency) w)"

definition set_acoustic_frequency_Hz ::
  "'d driver \<Rightarrow> aotf \<Rightarrow> pynum \<Rightarrow> int \<Rightarrow> 'd world \<Rightarrow> (error + unit) \<times> 'd world" where
  "set_acoustic_frequency_Hz drv s frequency channel w =
     (case check_channel s channel of
        Inl e \<Rightarrow> (Inl e, w)
      | Inr _ \<Rightarrow>
          write drv s (''Dds Frequency '' @ int_str channel @ '' !'' @ py_str drv frequency) w)"

definition set_acoustic_frequency ::
  "'d driver \<Rightarrow> aotf \<Rightarrow> pynum \<Rightarrow> int \<Rightarrow> 'd world \<Rightarrow> (error + unit) \<times> 'd world" where
  "set_acoustic_frequency drv s frequency channel w =
     set_acoustic_frequency_Hz drv s frequency channel w"

definition get_controller_index ::
  "'d driver \<Rightarrow> aotf \<Rightarrow> 'd world \<Rightarrow> (error + int) \<times> 'd world" where
  "get_controller_index drv s w =
     (case check_handle s of
        Inl e \<Rightarrow> (Inl e, w)
      | Inr _ \<Rightarrow>
          let (ret, d) = AotfGetInstance drv (the (handle s)) (dev w)
          in (Inr ret, w\<lparr>dev := d\<rparr>))"

subsection \<open>Calibration, wavelength and amplitude\<close>

text \<open>
  The setter of the property \<open>calibration\<close>. \<open>calibration[calibration_id]\<close> is a lookup
  in the module-level table, which raises on an absent key.
\<close>

definition calibration_setter :: "calib_table \<Rightarrow> aotf \<Rightarrow> string \<Rightarrow> error + aotf" where
  "calibration_setter table s calibration_id =
     (if calibration_id \<in> set (calib_ids s) then
        (case map_of table calibration_id of
           None \<Rightarrow> Inl KeyError
         | Some entry \<Rightarrow>
             (case Polynomial (coeffs entry) (cdomain entry) of
                Inl e \<Rightarrow> Inl e
              | Inr p \<Rightarrow> Inr (s\<lparr>calibration := Some p\<rparr>)))
      else Inr s)"

definition set_wavelength ::
  "'d driver \<Rightarrow> aotf \<Rightarrow> pynum \<Rightarrow> int \<Rightarrow> 'd world \<Rightarrow> (error + unit) \<times> 'd world" where
  "set_wavelength drv s wavelength channel w =
     (case check_channel s channel of
        Inl e \<Rightarrow> (Inl e, w)
      | Inr _ \<Rightarrow>
          (case calibration s of
             None \<Rightarrow> (Inr (), w)
           | Some p \<Rightarrow>
               if in_closed (fst (domain p)) (snd (domain p)) wavelength then
                 set_acoustic_frequency_MHz drv s (Polynomial_call p wavelength) channel w
               else (Inr (), w)))"

definition set_amplitude_int ::
  "'d driver \<Rightarrow> aotf \<Rightarrow> pynum \<Rightarrow> int \<Rightarrow> 'd world \<Rightarrow> (error + unit) \<times> 'd world" where
  "set_amplitude_int drv s amplitude channel w =
     (case check_channel s channel of
        Inl e \<Rightarrow> (Inl e, w)
      | Inr _ \<Rightarrow>
          if in_closed 0 (of_int (amplitude_int_max s)) amplitude then
            write drv s (''Dds Amplitude '' @ int_str channel @ '' '' @ py_str drv amplitude) w
          else (Inr (), w))"

definition set_amplitude_percent ::
  "'d driver \<Rightarrow> aotf \<Rightarrow> pynum \<Rightarrow> int \<Rightarrow> 'd world \<Rightarrow> (error + unit) \<times> 'd world" where
  "set_amplitude_percent drv s amplitude channel w =
     (case py_truediv (py_mul (PyInt (amplitude_int_max s)) amplitude) (PyInt 100) of
        Inl e \<Rightarrow> (Inl e, w)
      | Inr amplitude_int \<Rightarrow> set_amplitude_int drv s amplitude_int channel w)"

definition set_amplitude ::
  "'d driver \<Rightarrow> aotf \<Rightarrow> pynum \<Rightarrow> int \<Rightarrow> 'd world \<Rightarrow> (error + unit) \<times> 'd world" where
  "set_amplitude drv s amplitude channel w = set_amplitude_percent drv s amplitude channel w"

subsection \<open>A simulated transport\<close>

text \<open>
  A device for running the program on concrete inputs: one controller, of index 0, whose
  handle is 1 (a close of any other handle fails). It holds a clock and the bytes
  waiting to be read. A write is answered at once: \<open>respond\<close> maps the bytes written to
  the bytes the device puts on the line. Data is available when bytes are waiting, a read
  hands over at most \<open>len\<close> of them, and only \<open>sleep\<close> moves the clock. Floats are
  printed with one decimal place, which is Python's text for the floats used below. The
  codec is UTF-8 on the code points that the string type holds: a code point below 128 is
  one byte, one from 128 to 255 is two bytes, and bytes that are not such text are
  refused.
\<close>

record simdev =
  clock :: real
  rxbuf :: string

definition one_decimal :: "real \<Rightarrow> string" where
  "one_decimal r =
     (let a = \<bar>r\<bar>; body = nat_str (nat \<lfloor>a\<rfloor>) @ ''.'' @ nat_str (nat \<lfloor>(a - of_int \<lfloor>a\<rfloor>) * 10\<rfloor>)
      in if r < 0 then CHR ''-'' # body else body)"

definition is_ascii :: "string \<Rightarrow> bool" where
  "is_ascii s = list_all (\<lambda>c. (of_char c :: nat) < 128) s"

fun utf8_encode :: "string \<Rightarrow> string" where
  "utf8_encode [] = []"
| "utf8_encode (c # cs) =
     (if (of_char c :: nat) < 128 then c # utf8_encode cs
      else char_of (192 + (of_char c :: nat) div 64) # char_of (128 + (of_char c :: nat) mod 64) #
           utf8_encode cs)"

fun utf8_decode :: "string \<Rightarrow> error + string" where
  "utf8_decode [] = Inr []"
| "utf8_decode (b # bs) =
     (if (of_char b :: nat) < 128 then
        (case utf8_decode bs of Inl e \<Rightarrow> Inl e | Inr text \<Rightarrow> Inr (b # text))
      else
        (case bs of
           [] \<Rightarrow> Inl UnicodeDecodeError
         | c # cs \<Rightarrow>
             if ((of_char b :: nat) = 194 \<or> (of_char b :: nat) = 195) \<and>
                128 \<le> (of_char c :: nat) \<and> (of_char c :: nat) < 192
             then (case utf8_decode cs of
                     Inl e \<Rightarrow> Inl e
                   | Inr text \<Rightarrow>
                       Inr (char_of (((of_char b :: nat) - 192) * 64 + ((of_char c :: nat) - 128)) # text))
             else Inl UnicodeDecodeError))"

definition sim :: "(string \<Rightarrow> string) \<Rightarrow> simdev driver" where
  "sim respond =
     \<lparr>AotfOpen = (\<lambda>i d. (if i = 0 then 1 else 0, d)),
      AotfClose = (\<lambda>h d. (if h = 1 then 1 else 0, d)),
      AotfWrite = (\<lambda>h n m d. (1, d\<lparr>rxbuf := rxbuf d @ respond (take n m)\<rparr>)),
      AotfRead = (\<lambda>h len d.
        ((1, take len (rxbuf d), min len (length (rxbuf d))), d\<lparr>rxbuf := drop len (rxbuf d)\<rparr>)),
      AotfIsReadDataAvailable = (\<lambda>h d. (if rxbuf d = [] then 0 else 1, d)),
      AotfGetInstance = (\<lambda>h d. (0, d)),
      perf_counter = clock,
      sleep = (\<lambda>t d. d\<lparr>clock := clock d + t\<rparr>),
      float_str = one_decimal,
      encode = utf8_encode,
      decode = utf8_decode\<rparr>"

text \<open>The same device, except that a read hands over at most \<open>k\<close> bytes.\<close>

definition sim_portions :: "nat \<Rightarrow> (string \<Rightarrow> string) \<Rightarrow> simdev driver" where
  "sim_portions k respond =
     (sim respond)
       \<lparr>AotfRead := (\<lambda>h len d.
          ((1, take (min k len) (rxbuf d), min (min k len) (length (rxbuf d))),
           d\<lparr>rxbuf := drop (min k len) (rxbuf d)\<rparr>))\<rparr>"

text \<open>The device of the framing example: it echoes the command line, then answers.\<close>

definition echo_then :: "string \<Rightarrow> string \<Rightarrow> string" where
  "echo_then reply m = m @ [LF] @ reply"

text \<open>A device that never answers.\<close>

definition mute :: "string \<Rightarrow> string" where
  "mute m = []"

definition world0 :: "simdev world" where
  "world0 = \<lparr>dev = \<lparr>clock = 0, rxbuf = []\<rparr>, sent = [], stdout = []\<rparr>"

text \<open>An object that holds handle 1, and the table of the gating example.\<close>

definition table0 :: calib_table where
  "table0 = [(''RF1'', \<lparr>coeffs = [0, 1], cdomain = (500, 600)\<rparr>)]"

text \<open>The constants that \<open>__init__\<close> sets and no method assigns again.\<close>

definition constants_ok :: "aotf \<Rightarrow> bool" where
  "constants_ok s = (nchannels s = 8 \<and> timeout s = 10 \<and> amplitude_int_max s = 16383)"

text \<open>
  The value of the polynomial with coefficients \<open>cs\<close>, lowest degree first, at \<open>x\<close>, as
  the sum of its monomials: what "the calibration polynomial evaluated at the
  wavelength" means.
\<close>

definition polynomial_value :: "real list \<Rightarrow> real \<Rightarrow> real" where
  "polynomial_value cs x = (\<Sum>i < length cs. cs ! i * x ^ i)"

definition opened :: "calib_table \<Rightarrow> int \<Rightarrow> aotf" where
  "opened table h = (AOTF_init table)\<lparr>handle := Some h\<rparr>"

text \<open>The same object after the table's calibration has been made the active one.\<close>

definition calibrated :: aotf where
  "calibrated = (opened table0 1)\<lparr>calibration := Some \<lparr>coef = [0, 1], domain = (500, 600)\<rparr>\<rparr>"

section \<open>Properties\<close>

subsection \<open>Splitting on the line terminator\<close>

lemma split_crlf_not_Nil: "split_crlf s \<noteq> []"
  by (induction s rule: split_crlf.induct) (auto split: list.splits)

lemma join_crlf_Cons: "ys \<noteq> [] \<Longrightarrow> join_crlf (x # ys) = x @ [CR, LF] @ join_crlf ys"
  by (cases ys) simp_all

lemma join_crlf_push: "join_crlf ((c # l) # ls) = c # join_crlf (l # ls)"
  by (cases ls) simp_all

text \<open>The pieces, joined by the separator, are the string that was split.\<close>

lemma join_split_crlf: "join_crlf (split_crlf s) = s"
proof (induction s rule: split_crlf.induct)
  case 1
  show ?case by simp
next
  case (2 c cs)
  show ?case
  proof (cases "c = CR \<and> cs \<noteq> [] \<and> hd cs = LF")
    case True
    with 2 have "join_crlf (split_crlf (tl cs)) = tl cs" by simp
    with True show ?thesis by (cases cs) (simp_all add: join_crlf_Cons split_crlf_not_Nil)
  next
    case False
    with 2 have ih: "join_crlf (split_crlf cs) = cs" by simp
    obtain l ls where s: "split_crlf cs = l # ls"
      using split_crlf_not_Nil [of cs] by (cases "split_crlf cs") auto
    have "split_crlf (c # cs) = (c # l) # ls" using False s by auto
    with s ih show ?thesis by (simp only: join_crlf_push)
  qed
qed

text \<open>No piece holds the separator.\<close>

lemma split_crlf_pieces: "p \<in> set (split_crlf s) \<Longrightarrow> \<not> contains_crlf p"
proof (induction s arbitrary: p rule: split_crlf.induct)
  case 1
  then show ?case by simp
next
  case (2 c cs)
  show ?case
  proof (cases "c = CR \<and> cs \<noteq> [] \<and> hd cs = LF")
    case True
    with 2 show ?thesis by auto
  next
    case False
    obtain l ls where s: "split_crlf cs = l # ls"
      using split_crlf_not_Nil [of cs] by (cases "split_crlf cs") auto
    have hdl: "l \<noteq> [] \<Longrightarrow> cs \<noteq> [] \<and> hd cs = hd l"
      using s by (cases cs) (auto split: if_splits list.splits)
    from False s "2.prems" have "p = c # l \<or> p \<in> set ls" by auto
    then show ?thesis
    proof
      assume p: "p = c # l"
      from 2(2) [OF False] s have "\<not> contains_crlf l" by simp
      with p False hdl show ?thesis by auto
    next
      assume "p \<in> set ls"
      with 2(2) [OF False] s show ?thesis by simp
    qed
  qed
qed

text \<open>A command without the separator, followed by it, is the first piece.\<close>

lemma split_crlf_line:
  "\<not> contains_crlf msg \<Longrightarrow> split_crlf (msg @ CR # LF # rest) = msg # split_crlf rest"
proof (induction msg)
  case Nil
  show ?case by simp
next
  case (Cons c cs)
  then have ih: "split_crlf (cs @ CR # LF # rest) = cs # split_crlf rest" by simp
  from Cons.prems have n: "\<not> (c = CR \<and> cs \<noteq> [] \<and> hd cs = LF)" by simp
  have "\<not> (c = CR \<and> cs @ CR # LF # rest \<noteq> [] \<and> hd (cs @ CR # LF # rest) = LF)"
    using n by (cases cs) auto
  then show ?case using ih by simp
qed

lemma check_message_done_value:
  "check_message_done rd msg =
     Inr (hd (split_crlf rd) = msg \<and> CHR ''*'' \<in> set (last (split_crlf rd)))"
proof (cases "split_crlf rd")
  case Nil
  with split_crlf_not_Nil show ?thesis by blast
next
  case (Cons l ls)
  then show ?thesis
    by (simp add: check_message_done_def py_getitem_def Let_def last_conv_nth nat_add_distrib)
qed

text \<open>
  C10. Completion detection never fails: the split of any buffer has at least one piece,
  so the first and the last piece exist, also for the empty buffer, and the result is
  true exactly when the first piece is the command and the last piece holds an asterisk.
\<close>

theorem check_message_done_total:
  "split_crlf rd \<noteq> [] \<and>
   split_crlf [] = [[]] \<and>
   check_message_done rd msg =
     Inr (hd (split_crlf rd) = msg \<and> CHR ''*'' \<in> set (last (split_crlf rd)))"
  by (simp add: split_crlf_not_Nil check_message_done_value)

subsection \<open>Guards and writes\<close>

lemma check_channel_valid: "0 \<le> c \<Longrightarrow> check_channel s c = Inr ()"
  by (simp add: check_channel_def)

lemma check_channel_constants: "constants_ok s \<Longrightarrow> check_channel s c = Inr ()"
  by (simp add: check_channel_def constants_ok_def)

lemma constants_ok_init: "constants_ok (AOTF_init table)"
  by (simp add: constants_ok_def AOTF_init_def)

lemma constants_ok_opened: "constants_ok (opened table h)"
  by (simp add: constants_ok_def opened_def AOTF_init_def)

text \<open>No method assigns the constants: the three that return the object keep them.\<close>

lemma constants_ok_kept:
  "constants_ok s \<Longrightarrow> constants_ok (fst (snd (open drv s i w)))"
  "constants_ok s \<Longrightarrow> constants_ok (fst (snd (close drv s w)))"
  "constants_ok s \<Longrightarrow> calibration_setter table s key = Inr s' \<Longrightarrow> constants_ok s'"
  by (auto simp: constants_ok_def open_def close_def calibration_setter_def Let_def
      split: prod.splits sum.splits option.splits if_splits)

lemma handle_opened: "handle (opened table h) = Some h"
  by (simp add: opened_def)

lemma amplitude_int_max_opened: "amplitude_int_max (opened table h) = 16383"
  by (simp add: opened_def AOTF_init_def)

lemma priv_write_closed: "handle s = None \<Longrightarrow> priv_write drv s m w = (Inl NotOpen, w)"
  by (simp add: priv_write_def check_handle_def)

lemma priv_write_sent:
  "handle s = Some h \<Longrightarrow> sent (snd (priv_write drv s m w)) = sent w @ [m]"
  by (simp add: priv_write_def check_handle_def Let_def split: prod.splits)

lemma priv_write_result:
  "handle s = Some h \<Longrightarrow>
   fst (priv_write drv s m w) =
     (if fst (AotfWrite drv h (length m) (encode drv m) (dev w)) = 0
      then Inl WriteFailed else Inr ())"
  by (simp add: priv_write_def check_handle_def Let_def split: prod.splits)

lemma write_closed:
  "handle s = None \<Longrightarrow> write drv s m w = (Inl NotOpen, w\<lparr>stdout := stdout w @ [m]\<rparr>)"
  by (simp add: write_def priv_write_closed)

lemma write_sent:
  "handle s = Some h \<Longrightarrow> sent (snd (write drv s m w)) = sent w @ [m @ [CR]]"
  by (simp add: write_def priv_write_sent)

lemma write_result:
  "handle s = Some h \<Longrightarrow>
   fst (write drv s m w) =
     (if fst (AotfWrite drv h (Suc (length m)) (encode drv (m @ [CR])) (dev w)) = 0
      then Inl WriteFailed else Inr ())"
  by (simp add: write_def priv_write_result)

lemma query_closed: "handle s = None \<Longrightarrow> query drv s msg w = Some (Inl NotOpen, w)"
  by (simp add: query_def priv_write_closed)

lemma sim_simps:
  "AotfWrite (sim r) h n m d = (1, d\<lparr>rxbuf := rxbuf d @ r (take n m)\<rparr>)"
  "AotfRead (sim r) h len d =
     ((1, take len (rxbuf d), min len (length (rxbuf d))), d\<lparr>rxbuf := drop len (rxbuf d)\<rparr>)"
  "AotfIsReadDataAvailable (sim r) h d = (if rxbuf d = [] then 0 else 1, d)"
  "perf_counter (sim r) d = clock d"
  "sleep (sim r) t d = d\<lparr>clock := clock d + t\<rparr>"
  "float_str (sim r) = one_decimal"
  "encode (sim r) = utf8_encode"
  "decode (sim r) = utf8_decode"
  by (simp_all add: sim_def)

lemma int_str_0: "int_str 0 = ''0''"
  by (simp add: int_str_def nat_str.simps)

lemma int_str_8: "int_str 8 = ''8''"
  by (simp add: int_str_def nat_str.simps)

subsection \<open>Channel validation\<close>

lemma set_acoustic_frequency_Hz_any_channel:
  "fst (set_acoustic_frequency_Hz drv (opened table h) f c w) \<noteq> Inl InvalidChannel \<and>
   sent (snd (set_acoustic_frequency_Hz drv (opened table h) f c w)) =
     sent w @ [''Dds Frequency '' @ int_str c @ '' !'' @ py_str drv f @ [CR]]"
  by (simp add: set_acoustic_frequency_Hz_def check_channel_constants constants_ok_opened
      write_sent [OF handle_opened] write_result [OF handle_opened])

text \<open>
  C2. The claim: \<open>set_acoustic_frequency_Hz(f, c)\<close> raises the channel error exactly when
  \<open>c < 0\<close> or \<open>c >= 8\<close>, before anything is sent. The code: the guard joins the two
  comparisons with \<open>and\<close>, so with eight channels it rejects no channel at all; on
  channel 8 of an open controller the command goes out and no error is raised.
\<close>

theorem set_acoustic_frequency_Hz_channel_8_sent:
  "check_channel (opened table0 1) 8 = Inr () \<and>
   check_channel (opened table0 1) (- 1) = Inr () \<and>
   set_acoustic_frequency_Hz (sim mute) (opened table0 1) (PyFloat 1000) 8 world0 =
     (Inr (), world0\<lparr>sent := [''Dds Frequency 8 !1000.0'' @ [CR]],
                     stdout := [''Dds Frequency 8 !1000.0'']\<rparr>)"
  by (simp add: set_acoustic_frequency_Hz_def check_channel_constants constants_ok_opened
      write_def priv_write_def check_handle_def handle_opened int_str_8 py_str_def sim_simps
      mute_def world0_def one_decimal_def nat_str.simps)

subsection \<open>Amplitude\<close>

lemma set_amplitude_int_sent:
  "handle s = Some h \<Longrightarrow> constants_ok s \<Longrightarrow>
   sent (snd (set_amplitude_int drv s a c w)) =
     (if in_closed 0 16383 a
      then sent w @ [''Dds Amplitude '' @ int_str c @ '' '' @ py_str drv a @ [CR]]
      else sent w)"
  by (simp add: set_amplitude_int_def check_channel_constants write_sent constants_ok_def)

text \<open>
  C5. On an open controller and a valid channel, \<open>set_amplitude_int(a, c)\<close> hands
  \<open>Dds Amplitude c a\<close> to the transport exactly when \<open>0 <= a <= 16383\<close>, with \<open>a\<close> itself
  in the command; outside the range it returns without an error and leaves the world as
  it was.
\<close>

theorem set_amplitude_int_range:
  assumes "handle s = Some h" and "amplitude_int_max s = 16383" and "0 \<le> c" and "c < 8"
  shows "sent (snd (set_amplitude_int drv s a c w)) =
     (if in_closed 0 16383 a
      then sent w @ [''Dds Amplitude '' @ int_str c @ '' '' @ py_str drv a @ [CR]]
      else sent w) \<and>
     (in_closed 0 16383 a \<or> set_amplitude_int drv s a c w = (Inr (), w)) \<and>
     in_closed 0 16383 (PyInt i) = (0 \<le> i \<and> i \<le> 16383) \<and>
     in_closed 0 16383 (PyFloat r) = (0 \<le> r \<and> r \<le> 16383)"
  using assms by (simp add: set_amplitude_int_def check_channel_valid write_sent in_closed_def)

theorem set_amplitude_int_range_witness:
  "handle (opened table0 1) = Some 1 \<and> amplitude_int_max (opened table0 1) = 16383 \<and>
   sent (snd (set_amplitude_int (sim mute) (opened table0 1) (PyInt 8000) 0 world0)) =
     [''Dds Amplitude 0 8000'' @ [CR]] \<and>
   set_amplitude_int (sim mute) (opened table0 1) (PyInt 16384) 0 world0 = (Inr (), world0)"
proof -
  have a: "handle (opened table0 1) = Some 1" by (simp add: opened_def)
  have b: "amplitude_int_max (opened table0 1) = 16383" by (simp add: opened_def AOTF_init_def)
  have c: "in_closed 0 16383 (PyInt 8000)" "\<not> in_closed 0 16383 (PyInt 16384)"
    by (simp_all add: in_closed_def)
  have d: "py_str (sim mute) (PyInt 8000) = ''8000''" "int_str 0 = ''0''"
    by (simp_all add: py_str_def int_str_def nat_str.simps)
  have e: "sent world0 = []" by (simp add: world0_def)
  from set_amplitude_int_range [OF a b, of 0 "sim mute" "PyInt 8000" world0]
       set_amplitude_int_range [OF a b, of 0 "sim mute" "PyInt 16384" world0] a b c d e
  show ?thesis by simp
qed

text \<open>The conversion is the linear scaling, and its result goes on as it is.\<close>

lemma set_amplitude_percent_scaling:
  "amplitude_int_max s = 16383 \<Longrightarrow> py_val p = Some v \<Longrightarrow>
   set_amplitude_percent drv s p c w = set_amplitude_int drv s (PyFloat (16383 * v / 100)) c w"
  by (cases p) (simp_all add: set_amplitude_percent_def py_truediv_def)

lemma one_decimal_half: "one_decimal (16383 / 2) = ''8191.5''"
  by (simp add: one_decimal_def nat_str.simps)

text \<open>
  C6. The claim: \<open>set_amplitude_percent(50, c)\<close> emits the integer amplitude 8191. The
  code: \<open>16383 * 50 / 100\<close> is a true division, the float 8191.5, which is passed on to
  \<open>set_amplitude_int\<close> as it is, lies in the range and is written into the command.
\<close>

theorem set_amplitude_percent_50_sends_8191_5:
  "set_amplitude_percent drv (opened table h) (PyInt 50) c w =
     set_amplitude_int drv (opened table h) (PyFloat (16383 / 2)) c w \<and>
   set_amplitude_percent drv (opened table h) (PyFloat 50) c w =
     set_amplitude_int drv (opened table h) (PyFloat (16383 / 2)) c w \<and>
   sent (snd (set_amplitude_percent drv (opened table h) (PyInt 50) c w)) =
     sent w @ [''Dds Amplitude '' @ int_str c @ '' '' @ float_str drv (16383 / 2) @ [CR]] \<and>
   sent (snd (set_amplitude_percent (sim mute) (opened table h) (PyInt 50) 0 w)) =
     sent w @ [''Dds Amplitude 0 8191.5'' @ [CR]]"
proof -
  have a: "in_closed 0 16383 (PyFloat (16383 / 2))"
    by (simp add: in_closed_def)
  have f: "float_str (sim mute) (16383 / 2) = ''8191.5''"
    by (simp add: sim_simps one_decimal_half)
  have p: "\<And>p. py_val p = Some 50 \<Longrightarrow> set_amplitude_percent drv (opened table h) p c w =
     set_amplitude_int drv (opened table h) (PyFloat (16383 / 2)) c w"
    by (simp add: set_amplitude_percent_scaling [OF amplitude_int_max_opened])
  have q: "set_amplitude_percent (sim mute) (opened table h) (PyInt 50) 0 w =
     set_amplitude_int (sim mute) (opened table h) (PyFloat (16383 / 2)) 0 w"
    by (simp add: set_amplitude_percent_scaling [OF amplitude_int_max_opened])
  show ?thesis
    by (simp add: p q amplitude_int_max_opened
        set_amplitude_int_sent [OF handle_opened constants_ok_opened] a py_str_def f int_str_0)
qed

subsection \<open>Closing\<close>

text \<open>
  C9. \<open>close\<close> without a handle fails with the not-open error; when the transport's
  close returns 0 it fails with the close error and the object, its handle included, is
  as before; when the transport's close succeeds the handle is cleared.
\<close>

theorem close_lifecycle:
  "(handle s = None \<longrightarrow> close drv s w = (Inl NotOpen, s, w)) \<and>
   (handle s = Some h \<and> fst (AotfClose drv h (dev w)) = 0 \<longrightarrow>
      fst (close drv s w) = Inl CloseFailed \<and> fst (snd (close drv s w)) = s) \<and>
   (handle s = Some h \<and> fst (AotfClose drv h (dev w)) \<noteq> 0 \<longrightarrow>
      fst (close drv s w) = Inr () \<and> fst (snd (close drv s w)) = s\<lparr>handle := None\<rparr>)"
  by (simp add: close_def check_handle_def Let_def split: prod.splits)

theorem close_lifecycle_witness:
  "handle (AOTF_init table0) = None \<and>
   close (sim mute) (AOTF_init table0) world0 = (Inl NotOpen, AOTF_init table0, world0) \<and>
   handle (opened table0 2) = Some 2 \<and> fst (AotfClose (sim mute) 2 (dev world0)) = 0 \<and>
   fst (close (sim mute) (opened table0 2) world0) = Inl CloseFailed \<and>
   handle (fst (snd (close (sim mute) (opened table0 2) world0))) = Some 2 \<and>
   handle (opened table0 1) = Some 1 \<and> fst (AotfClose (sim mute) 1 (dev world0)) \<noteq> 0 \<and>
   fst (close (sim mute) (opened table0 1) world0) = Inr () \<and>
   handle (fst (snd (close (sim mute) (opened table0 1) world0))) = None"
proof -
  have a: "handle (AOTF_init table0) = None" by (simp add: AOTF_init_def)
  have b: "handle (opened table0 2) = Some 2 \<and> fst (AotfClose (sim mute) 2 (dev world0)) = 0"
    by (simp add: opened_def sim_def)
  have c: "handle (opened table0 1) = Some 1 \<and> fst (AotfClose (sim mute) 1 (dev world0)) \<noteq> 0"
    by (simp add: opened_def sim_def)
  show ?thesis
    using a b c
      close_lifecycle [of "AOTF_init table0" "sim mute" world0 0]
      close_lifecycle [of "opened table0 2" "sim mute" world0 2]
      close_lifecycle [of "opened table0 1" "sim mute" world0 1]
    by (simp add: opened_def)
qed

subsection \<open>Calibration and wavelength\<close>

text \<open>
  C8. On an object whose key list is the table's (as \<open>__init__\<close> leaves it), assigning a
  key that is not in the table returns the object unchanged and raises nothing; an
  assignment after which the active calibration differs had its key in the table.
\<close>

theorem calibration_setter_unknown_key:
  assumes "calib_ids s = map fst table"
  shows "(key \<notin> fst ` set table \<longrightarrow> calibration_setter table s key = Inr s) \<and>
         (\<forall>s'. calibration_setter table s key = Inr s' \<and> calibration s' \<noteq> calibration s
                \<longrightarrow> key \<in> fst ` set table)"
  using assms by (auto simp: calibration_setter_def)

theorem calibration_setter_unknown_key_witness:
  "calib_ids (AOTF_init table0) = map fst table0 \<and> ''RF2'' \<notin> fst ` set table0 \<and>
   calibration_setter table0 (AOTF_init table0) ''RF2'' = Inr (AOTF_init table0) \<and>
   calibration_setter table0 (AOTF_init table0) ''RF1'' =
     Inr ((AOTF_init table0)\<lparr>calibration := Some \<lparr>coef = [0, 1], domain = (500, 600)\<rparr>\<rparr>) \<and>
   ''RF1'' \<in> fst ` set table0"
proof -
  have a: "calib_ids (AOTF_init table0) = map fst table0" by (simp add: AOTF_init_def)
  have b: "''RF2'' \<notin> fst ` set table0" by (simp add: table0_def)
  have c: "calibration_setter table0 (AOTF_init table0) ''RF1'' =
     Inr ((AOTF_init table0)\<lparr>calibration := Some \<lparr>coef = [0, 1], domain = (500, 600)\<rparr>\<rparr>)"
    by (simp add: calibration_setter_def AOTF_init_def table0_def Polynomial_def)
  have d: "calibration ((AOTF_init table0)\<lparr>calibration := Some \<lparr>coef = [0, 1], domain = (500, 600)\<rparr>\<rparr>)
       \<noteq> calibration (AOTF_init table0)"
    by (simp add: AOTF_init_def)
  from calibration_setter_unknown_key [OF a, of "''RF2''"] b
  have e: "calibration_setter table0 (AOTF_init table0) ''RF2'' = Inr (AOTF_init table0)" by simp
  from calibration_setter_unknown_key [OF a, of "''RF1''"] c d
  have f: "''RF1'' \<in> fst ` set table0" by blast
  show ?thesis using a b c e f by simp
qed

text \<open>Horner's rule computes the sum of the monomials.\<close>

lemma polyval_polynomial_value: "polyval x cs = polynomial_value cs x"
proof (induction cs)
  case Nil
  show ?case by (simp add: polynomial_value_def)
next
  case (Cons c cs)
  have "polynomial_value (c # cs) x = (\<Sum>i < Suc (length cs). (c # cs) ! i * x ^ i)"
    by (simp add: polynomial_value_def del: sum.lessThan_Suc)
  also have "\<dots> = (c # cs) ! 0 * x ^ 0 + (\<Sum>i < length cs. (c # cs) ! Suc i * x ^ Suc i)"
    by (rule sum.lessThan_Suc_shift)
  also have "\<dots> = c + x * polynomial_value cs x"
    by (simp add: polynomial_value_def sum_distrib_left mult_ac)
  finally show ?case using Cons by simp
qed

text \<open>On a domain that is not a single point the map to the window is the identity.\<close>

lemma Polynomial_call_value:
  "fst (domain p) \<noteq> snd (domain p) \<Longrightarrow> py_val x = Some v \<Longrightarrow>
   Polynomial_call p x = PyFloat (polynomial_value (coef p) v)"
  by (simp add: Polynomial_call_def Let_def polyval_polynomial_value mult.commute)

lemma set_acoustic_frequency_MHz_sent:
  "handle s = Some h \<Longrightarrow> 0 \<le> c \<Longrightarrow>
   sent (snd (set_acoustic_frequency_MHz drv s f c w)) =
     sent w @ [''Dds Frequency '' @ int_str c @ '' '' @ py_str drv f @ [CR]]"
  by (simp add: set_acoustic_frequency_MHz_def check_channel_valid write_sent)

text \<open>
  C7. On an open controller and a valid channel, \<open>set_wavelength(w, c)\<close> hands a
  \<open>Dds Frequency c f\<close> command (no unit marker: MHz) to the transport exactly when a
  calibration is active and \<open>w\<close> lies in its closed domain, and \<open>f\<close> is then the value
  of the calibration at \<open>w\<close>; otherwise it returns without an error and leaves the world
  as it was. On a domain \<open>lo < hi\<close> the value of the calibration at \<open>w\<close> is the sum of
  the monomials \<open>coef[i] * w^i\<close>.
\<close>

theorem set_wavelength_gated:
  assumes "handle s = Some h" and "0 \<le> c" and "c < 8"
  shows "sent (snd (set_wavelength drv s wl c w)) =
     (case calibration s of
        None \<Rightarrow> sent w
      | Some p \<Rightarrow>
          if in_closed (fst (domain p)) (snd (domain p)) wl
          then sent w @ [''Dds Frequency '' @ int_str c @ '' '' @
                         py_str drv (Polynomial_call p wl) @ [CR]]
          else sent w) \<and>
     ((\<exists>p. calibration s = Some p \<and> in_closed (fst (domain p)) (snd (domain p)) wl) \<or>
        set_wavelength drv s wl c w = (Inr (), w)) \<and>
     (\<forall>p v. calibration s = Some p \<and> fst (domain p) < snd (domain p) \<and> py_val wl = Some v
        \<longrightarrow> Polynomial_call p wl = PyFloat (polynomial_value (coef p) v))"
  using assms
  by (auto simp: set_wavelength_def check_channel_valid set_acoustic_frequency_MHz_sent
      Polynomial_call_value split: option.splits)

theorem set_wavelength_gated_witness:
  "handle calibrated = Some 1 \<and>
   sent (snd (set_wavelength (sim mute) calibrated (PyInt 550) 0 world0)) =
     [''Dds Frequency 0 550.0'' @ [CR]] \<and>
   set_wavelength (sim mute) calibrated (PyInt 700) 0 world0 = (Inr (), world0) \<and>
   Polynomial_call \<lparr>coef = [0, 1], domain = (500, 600)\<rparr> (PyInt 550) = PyFloat 550"
proof -
  let ?p = "\<lparr>coef = [0, 1], domain = (500, 600)\<rparr>"
  have a: "handle calibrated = Some 1" by (simp add: calibrated_def opened_def)
  have b: "calibration calibrated = Some ?p" by (simp add: calibrated_def)
  have c: "in_closed (fst (domain ?p)) (snd (domain ?p)) (PyInt 550)"
    "\<not> in_closed (fst (domain ?p)) (snd (domain ?p)) (PyInt 700)"
    by (simp_all add: in_closed_def)
  have d: "polynomial_value [0, 1] 550 = 550"
    by (simp add: polynomial_value_def lessThan_Suc numeral_2_eq_2)
  have e: "one_decimal 550 = ''550.0''" "int_str 0 = ''0''"
    by (simp_all add: one_decimal_def int_str_def nat_str.simps)
  have f: "sent world0 = []" by (simp add: world0_def)
  have g: "py_val (PyInt 550) = Some 550" "fst (domain ?p) < snd (domain ?p)" by simp_all
  from set_wavelength_gated [OF a, of 0 "sim mute" "PyInt 550" world0] b g d
  have v: "Polynomial_call ?p (PyInt 550) = PyFloat 550" by simp
  from set_wavelength_gated [OF a, of 0 "sim mute" "PyInt 550" world0]
       set_wavelength_gated [OF a, of 0 "sim mute" "PyInt 700" world0] a b c e f v
  show ?thesis by (simp add: py_str_def sim_simps)
qed

subsection \<open>The handle guard\<close>

lemma percent_range:
  "amplitude_int_max s = 16383 \<Longrightarrow>
   \<exists>a'. py_truediv (py_mul (PyInt (amplitude_int_max s)) a) (PyInt 100) = Inr a' \<and>
        in_closed 0 16383 a' = in_closed 0 100 a"
  by (cases a) (auto simp: py_truediv_def in_closed_def)

text \<open>
  C4, as the claim states it, fails: without a handle, \<open>set_wavelength\<close> with no active
  calibration, \<open>set_amplitude_int\<close> with an amplitude out of range and the calibration
  assignment all return without any error.
\<close>

theorem handle_guard_counterexample:
  "handle (AOTF_init table0) = None \<and>
   set_wavelength (sim mute) (AOTF_init table0) (PyFloat 532) 0 world0 = (Inr (), world0) \<and>
   set_amplitude_int (sim mute) (AOTF_init table0) (PyInt (- 1)) 0 world0 = (Inr (), world0) \<and>
   calibration_setter table0 (AOTF_init table0) ''RF1'' =
     Inr ((AOTF_init table0)\<lparr>calibration := Some \<lparr>coef = [0, 1], domain = (500, 600)\<rparr>\<rparr>)"
  by (simp add: AOTF_init_def set_wavelength_def set_amplitude_int_def check_channel_def
      in_closed_def calibration_setter_def table0_def Polynomial_def)

text \<open>
  C4, amended. While no handle is held, \<open>close\<close>, \<open>query\<close>, \<open>get_serial\<close>, \<open>get_date\<close>,
  \<open>get_controller_index\<close>, \<open>write\<close>, \<open>reset\<close> and the three frequency setters fail with
  the not-open error. \<open>set_amplitude_int\<close> fails with it exactly when the amplitude is in
  \<open>[0, 16383]\<close>, \<open>set_amplitude_percent\<close> and \<open>set_amplitude\<close> exactly when the percentage
  is in \<open>[0, 100]\<close>, \<open>set_wavelength\<close> exactly when a calibration is active and the
  wavelength is in its domain; otherwise these return without an error. The calibration
  assignment never raises the not-open error.
\<close>

theorem handle_guard_amended:
  assumes n: "handle s = None" and k: "constants_ok s"
  shows "close drv s w = (Inl NotOpen, s, w) \<and>
     query drv s msg w = Some (Inl NotOpen, w) \<and>
     get_serial drv s w = Some (Inl NotOpen, w) \<and>
     get_date drv s w = Some (Inl NotOpen, w) \<and>
     get_controller_index drv s w = (Inl NotOpen, w) \<and>
     fst (write drv s msg w) = Inl NotOpen \<and>
     fst (reset drv s w) = Inl NotOpen \<and>
     fst (set_acoustic_frequency_Hz drv s f c w) = Inl NotOpen \<and>
     fst (set_acoustic_frequency_MHz drv s f c w) = Inl NotOpen \<and>
     fst (set_acoustic_frequency drv s f c w) = Inl NotOpen \<and>
     fst (set_amplitude_int drv s a c w) = (if in_closed 0 16383 a then Inl NotOpen else Inr ()) \<and>
     fst (set_amplitude_percent drv s a c w) = (if in_closed 0 100 a then Inl NotOpen else Inr ()) \<and>
     fst (set_amplitude drv s a c w) = (if in_closed 0 100 a then Inl NotOpen else Inr ()) \<and>
     fst (set_wavelength drv s wl c w) =
       (case calibration s of
          None \<Rightarrow> Inr ()
        | Some p \<Rightarrow> if in_closed (fst (domain p)) (snd (domain p)) wl then Inl NotOpen else Inr ()) \<and>
     calibration_setter table s key \<noteq> Inl NotOpen"
proof -
  have ch: "\<And>c. check_channel s c = Inr ()" using k by (rule check_channel_constants)
  have m: "amplitude_int_max s = 16383" using k by (simp add: constants_ok_def)
  have ai: "\<And>a. fst (set_amplitude_int drv s a c w) =
      (if in_closed 0 16383 a then Inl NotOpen else Inr ())"
    by (simp add: set_amplitude_int_def ch m write_closed [OF n])
  have ap: "fst (set_amplitude_percent drv s a c w) =
      (if in_closed 0 100 a then Inl NotOpen else Inr ())"
    using percent_range [OF m, of a] by (auto simp: set_amplitude_percent_def ai)
  have wl: "fst (set_wavelength drv s wl c w) =
       (case calibration s of
          None \<Rightarrow> Inr ()
        | Some p \<Rightarrow> if in_closed (fst (domain p)) (snd (domain p)) wl then Inl NotOpen else Inr ())"
    by (simp add: set_wavelength_def set_acoustic_frequency_MHz_def ch write_closed [OF n]
        split: option.splits)
  have cs: "calibration_setter table s key \<noteq> Inl NotOpen"
    by (simp add: calibration_setter_def Polynomial_def split: option.splits)
  have g: "close drv s w = (Inl NotOpen, s, w)" "get_controller_index drv s w = (Inl NotOpen, w)"
    by (simp_all add: close_def get_controller_index_def check_handle_def n)
  have f: "fst (set_acoustic_frequency_Hz drv s f c w) = Inl NotOpen"
     "fst (set_acoustic_frequency_MHz drv s f c w) = Inl NotOpen"
    by (simp_all add: set_acoustic_frequency_Hz_def set_acoustic_frequency_MHz_def ch
        write_closed [OF n])
  show ?thesis
    by (simp add: g f ai ap wl cs query_closed [OF n] get_serial_def get_date_def reset_def
        write_closed [OF n] set_acoustic_frequency_def set_amplitude_def)
qed

theorem handle_guard_amended_witness:
  "handle (AOTF_init table0) = None \<and> constants_ok (AOTF_init table0) \<and>
   close (sim mute) (AOTF_init table0) world0 = (Inl NotOpen, AOTF_init table0, world0) \<and>
   query (sim mute) (AOTF_init table0) ''BoardId Serial'' world0 = Some (Inl NotOpen, world0) \<and>
   fst (reset (sim mute) (AOTF_init table0) world0) = Inl NotOpen \<and>
   fst (set_acoustic_frequency_MHz (sim mute) (AOTF_init table0) (PyFloat 200) 3 world0) =
     Inl NotOpen \<and>
   fst (set_amplitude_int (sim mute) (AOTF_init table0) (PyInt 8000) 0 world0) = Inl NotOpen \<and>
   fst (set_amplitude_int (sim mute) (AOTF_init table0) (PyInt (- 1)) 0 world0) = Inr () \<and>
   fst (set_wavelength (sim mute) (AOTF_init table0) (PyFloat 532) 0 world0) = Inr ()"
proof -
  have a: "handle (AOTF_init table0) = None" by (simp add: AOTF_init_def)
  have b: "constants_ok (AOTF_init table0)" by (rule constants_ok_init)
  have c: "in_closed 0 16383 (PyInt 8000)" "\<not> in_closed 0 16383 (PyInt (- 1))"
    by (simp_all add: in_closed_def)
  have d: "calibration (AOTF_init table0) = None" by (simp add: AOTF_init_def)
  from handle_guard_amended [OF a b, of "sim mute" world0 "''BoardId Serial''" "PyFloat 200" 3
         "PyInt 8000"]
       handle_guard_amended [OF a b, of "sim mute" world0 "''BoardId Serial''" "PyFloat 200" 0
         "PyInt 8000" "PyFloat 532"]
       handle_guard_amended [OF a b, of "sim mute" world0 "''BoardId Serial''" "PyFloat 200" 0
         "PyInt (- 1)"]
       a b c d
  show ?thesis by simp
qed

subsection \<open>The timeout\<close>

lemma is_data_available_open:
  "handle s = Some h \<Longrightarrow>
   is_data_available drv s w =
     (Inr (fst (AotfIsReadDataAvailable drv h (dev w)) \<noteq> 0),
      w\<lparr>dev := snd (AotfIsReadDataAvailable drv h (dev w))\<rparr>)"
  by (simp add: is_data_available_def check_handle_def split: prod.splits)

text \<open>One iteration of the loop when no data is available.\<close>

lemma loop_read_from_idle:
  assumes h: "handle s = Some h"
    and a: "fst (AotfIsReadDataAvailable drv h (dev w)) = 0"
  shows "loop_read_from drv s msg start rd w =
     (let w2 = w\<lparr>dev := sleep drv (1 / 10) (snd (AotfIsReadDataAvailable drv h (dev w)))\<rparr>
      in if perf_counter drv (dev w2) - start > timeout s then Some (Inr [], w2)
         else loop_read_from drv s msg start rd w2)"
  by (subst loop_read_from.simps) (simp add: is_data_available_open [OF h] a Let_def)

text \<open>
  A quiet transport: \<open>Q\<close> holds of the states of the world in which no data is
  available; polling keeps \<open>Q\<close> and takes no time, sleeping keeps \<open>Q\<close> and takes the time
  asked for. From a quiet state in which \<open>(100 - n) / 10\<close> seconds have passed, the loop
  returns the empty string after \<open>n + 1\<close> more iterations, 10.1 seconds after the start.
\<close>

lemma loop_read_from_quiet:
  fixes drv :: "'d driver" and Q :: "'d \<Rightarrow> bool"
  assumes h: "handle s = Some h" and t: "timeout s = 10"
    and av: "\<And>d. Q d \<Longrightarrow> fst (AotfIsReadDataAvailable drv h d) = 0 \<and>
                Q (snd (AotfIsReadDataAvailable drv h d)) \<and>
                perf_counter drv (snd (AotfIsReadDataAvailable drv h d)) = perf_counter drv d"
    and sl: "\<And>d. Q d \<Longrightarrow> Q (sleep drv (1 / 10) d) \<and>
                perf_counter drv (sleep drv (1 / 10) d) = perf_counter drv d + 1 / 10"
  shows "Q (dev w) \<Longrightarrow> n \<le> 100 \<Longrightarrow> perf_counter drv (dev w) - start = (100 - real n) / 10 \<Longrightarrow>
     \<exists>w'. loop_read_from drv s msg start rd w = Some (Inr [], w') \<and>
          perf_counter drv (dev w') = start + 101 / 10 \<and> Q (dev w') \<and>
          sent w' = sent w \<and> stdout w' = stdout w"
proof (induction n arbitrary: w)
  case 0
  let ?d1 = "snd (AotfIsReadDataAvailable drv h (dev w))"
  let ?w2 = "w\<lparr>dev := sleep drv (1 / 10) ?d1\<rparr>"
  from av [OF "0.prems"(1)] have a: "fst (AotfIsReadDataAvailable drv h (dev w)) = 0"
    and q1: "Q ?d1" and c1: "perf_counter drv ?d1 = perf_counter drv (dev w)" by simp_all
  from sl [OF q1] c1 have q2: "Q (dev ?w2)"
    and c2: "perf_counter drv (dev ?w2) = perf_counter drv (dev w) + 1 / 10" by simp_all
  from "0.prems"(3) c2 have e: "perf_counter drv (dev ?w2) - start = 101 / 10" by simp
  have "loop_read_from drv s msg start rd w = Some (Inr [], ?w2)"
    using e by (simp add: loop_read_from_idle [OF h a] Let_def t)
  moreover have "perf_counter drv (dev ?w2) = start + 101 / 10" using e by simp
  ultimately show ?case using q2 by simp
next
  case (Suc n)
  let ?d1 = "snd (AotfIsReadDataAvailable drv h (dev w))"
  let ?w2 = "w\<lparr>dev := sleep drv (1 / 10) ?d1\<rparr>"
  from av [OF Suc.prems(1)] have a: "fst (AotfIsReadDataAvailable drv h (dev w)) = 0"
    and q1: "Q ?d1" and c1: "perf_counter drv ?d1 = perf_counter drv (dev w)" by simp_all
  from sl [OF q1] c1 have q2: "Q (dev ?w2)"
    and c2: "perf_counter drv (dev ?w2) = perf_counter drv (dev w) + 1 / 10" by simp_all
  from Suc.prems(3) c2 have e: "perf_counter drv (dev ?w2) - start = (100 - real n) / 10"
    by (simp add: field_simps)
  have le: "\<not> perf_counter drv (dev ?w2) - start > 10" using e by simp
  have step: "loop_read_from drv s msg start rd w = loop_read_from drv s msg start rd ?w2"
    using le by (simp add: loop_read_from_idle [OF h a] Let_def t)
  from Suc.prems(2) have n: "n \<le> 100" by simp
  from Suc.IH [OF q2 n e] step show ?case by simp
qed

text \<open>
  C3. On an open controller whose write succeeds and whose transport stays quiet (no
  data is ever reported available), with a clock that only \<open>sleep\<close> moves, and by the
  time asked for, \<open>query\<close> returns: its result is the empty string, and the clock has
  then advanced by at most the timeout plus one polling interval, 10 s + 0.1 s. The
  command was handed to the transport once.
\<close>

theorem query_timeout:
  fixes drv :: "'d driver" and Q :: "'d \<Rightarrow> bool"
  assumes h: "handle s = Some h" and t: "timeout s = 10" and q: "Q (dev w)"
    and wr: "\<And>d. Q d \<Longrightarrow> fst (AotfWrite drv h (length (msg @ [CR])) (encode drv (msg @ [CR])) d) \<noteq> 0 \<and>
                Q (snd (AotfWrite drv h (length (msg @ [CR])) (encode drv (msg @ [CR])) d)) \<and>
                perf_counter drv (snd (AotfWrite drv h (length (msg @ [CR])) (encode drv (msg @ [CR])) d))
                  = perf_counter drv d"
    and av: "\<And>d. Q d \<Longrightarrow> fst (AotfIsReadDataAvailable drv h d) = 0 \<and>
                Q (snd (AotfIsReadDataAvailable drv h d)) \<and>
                perf_counter drv (snd (AotfIsReadDataAvailable drv h d)) = perf_counter drv d"
    and sl: "\<And>d. Q d \<Longrightarrow> Q (sleep drv (1 / 10) d) \<and>
                perf_counter drv (sleep drv (1 / 10) d) = perf_counter drv d + 1 / 10"
  shows "\<exists>w'. query drv s msg w = Some (Inr [], w') \<and>
           perf_counter drv (dev w') - perf_counter drv (dev w) \<le> 10 + 1 / 10 \<and>
           sent w' = sent w @ [msg @ [CR]]"
proof -
  let ?d1 = "snd (AotfWrite drv h (length (msg @ [CR])) (encode drv (msg @ [CR])) (dev w))"
  let ?w1 = "w\<lparr>dev := ?d1, sent := sent w @ [msg @ [CR]]\<rparr>"
  from wr [OF q] have ok: "fst (AotfWrite drv h (length (msg @ [CR])) (encode drv (msg @ [CR])) (dev w)) \<noteq> 0"
    and q1: "Q (dev ?w1)" and c1: "perf_counter drv ?d1 = perf_counter drv (dev w)" by simp_all
  have pw: "priv_write drv s (msg @ [CR]) w = (Inr (), ?w1)"
    using ok by (simp add: priv_write_def check_handle_def h Let_def case_prod_beta)
  have "\<exists>w'. loop_read_from drv s msg (perf_counter drv (dev ?w1)) [] ?w1 = Some (Inr [], w') \<and>
          perf_counter drv (dev w') = perf_counter drv (dev ?w1) + 101 / 10 \<and> Q (dev w') \<and>
          sent w' = sent ?w1 \<and> stdout w' = stdout ?w1"
    using q1 by (intro loop_read_from_quiet [where Q = Q and n = 100, OF h t av sl]) simp_all
  then obtain w' where
    l: "loop_read_from drv s msg (perf_counter drv (dev ?w1)) [] ?w1 = Some (Inr [], w')"
    and c: "perf_counter drv (dev w') = perf_counter drv (dev ?w1) + 101 / 10"
    and s: "sent w' = sent ?w1" by blast
  have "query drv s msg w = Some (Inr [], w')"
    using l by (simp add: query_def pw loop_read_def)
  moreover have "perf_counter drv (dev w') - perf_counter drv (dev w) \<le> 10 + 1 / 10"
    using c c1 by simp
  ultimately show ?thesis using s by auto
qed

theorem query_timeout_witness:
  "\<exists>w'. query (sim mute) (opened table0 1) ''BoardId Serial'' world0 = Some (Inr [], w') \<and>
         clock (dev w') - clock (dev world0) \<le> 10 + 1 / 10"
proof -
  have a: "handle (opened table0 1) = Some 1" by (simp add: opened_def)
  have b: "timeout (opened table0 1) = 10" by (simp add: opened_def AOTF_init_def)
  have c: "rxbuf (dev world0) = []" by (simp add: world0_def)
  have "\<exists>w'. query (sim mute) (opened table0 1) ''BoardId Serial'' world0 = Some (Inr [], w') \<and>
      perf_counter (sim mute) (dev w') - perf_counter (sim mute) (dev world0) \<le> 10 + 1 / 10 \<and>
      sent w' = sent world0 @ [''BoardId Serial'' @ [CR]]"
    by (rule query_timeout [where Q = "\<lambda>d. rxbuf d = []", OF a b c])
       (simp_all add: sim_simps mute_def)
  then show ?thesis by (auto simp: sim_simps)
qed

subsection \<open>Framing\<close>

text \<open>On ASCII text the codec of the simulated runtime changes nothing.\<close>

lemma utf8_decode_ascii: "is_ascii b \<Longrightarrow> utf8_decode b = Inr b"
  by (induction b) (simp_all add: is_ascii_def)

lemma utf8_encode_ascii: "is_ascii s \<Longrightarrow> utf8_encode s = s"
  by (induction s) (simp_all add: is_ascii_def)

lemma is_ascii_append: "is_ascii (xs @ ys) = (is_ascii xs \<and> is_ascii ys)"
  by (simp add: is_ascii_def)

lemma is_ascii_subset: "is_ascii ys \<Longrightarrow> set xs \<subseteq> set ys \<Longrightarrow> is_ascii xs"
  by (auto simp: is_ascii_def list_all_iff)

text \<open>The cut at the first NUL leaves the bytes stored when none of them is NUL.\<close>

lemma buffer_value:
  assumes "n \<le> length buffer" and "CHR 0x00 \<notin> set (take n buffer)"
  shows "take n (takeWhile (\<lambda>c. c \<noteq> CHR 0x00) buffer) = take n buffer"
proof -
  have "takeWhile (\<lambda>c. c \<noteq> CHR 0x00) (take n buffer @ drop n buffer) =
      take n buffer @ takeWhile (\<lambda>c. c \<noteq> CHR 0x00) (drop n buffer)"
    using assms(2) by (intro takeWhile_append2) auto
  then have "takeWhile (\<lambda>c. c \<noteq> CHR 0x00) buffer =
      take n buffer @ takeWhile (\<lambda>c. c \<noteq> CHR 0x00) (drop n buffer)" by simp
  moreover have "length (take n buffer) = n" using assms(1) by simp
  ultimately show ?thesis by (metis append_eq_conv_conj)
qed

text \<open>The last piece is made of characters of the buffer.\<close>

lemma last_split_crlf_subset: "set (last (split_crlf s)) \<subseteq> set s"
proof (induction s rule: split_crlf.induct)
  case 1
  show ?case by simp
next
  case (2 c cs)
  show ?case
  proof (cases "c = CR \<and> cs \<noteq> [] \<and> hd cs = LF")
    case True
    with 2 have "set (last (split_crlf (tl cs))) \<subseteq> set (tl cs)" by simp
    moreover have "set (tl cs) \<subseteq> set cs" by (cases cs) auto
    ultimately show ?thesis using True by (auto simp: split_crlf_not_Nil)
  next
    case False
    with 2 have ih: "set (last (split_crlf cs)) \<subseteq> set cs" by simp
    obtain l ls where s: "split_crlf cs = l # ls"
      using split_crlf_not_Nil [of cs] by (cases "split_crlf cs") auto
    have "split_crlf (c # cs) = (c # l) # ls" using False s by auto
    with s ih show ?thesis by (cases ls) auto
  qed
qed

text \<open>A read that succeeds on bytes that decode.\<close>

lemma priv_read_open:
  assumes h: "handle s = Some h"
    and a: "fst (AotfIsReadDataAvailable drv h (dev w)) \<noteq> 0"
    and r: "AotfRead drv h len (snd (AotfIsReadDataAvailable drv h (dev w))) = ((ret, buffer, nread), d')"
    and ok: "ret \<noteq> 0"
    and dc: "decode drv (take nread (takeWhile (\<lambda>c. c \<noteq> CHR 0x00) buffer)) = Inr text"
  shows "priv_read drv s len w = (Inr text, w\<lparr>dev := d'\<rparr>)"
  using a r ok dc
  by (simp add: priv_read_def check_handle_def h is_data_available_open [OF h])

text \<open>Before the whole answer is there, the buffer holds no asterisk, so it is not complete.\<close>

lemma no_asterisk_before_end:
  assumes "rd @ rest = msg @ CR # LF # ''done'' @ [CR, LF] @ ''*''" and "rest \<noteq> []"
    and "CHR ''*'' \<notin> set msg"
  shows "CHR ''*'' \<notin> set rd"
proof -
  from assms(2) have "rest = butlast rest @ [last rest]" by simp
  with assms(1) have "(rd @ butlast rest) @ [last rest] = (msg @ CR # LF # ''done'' @ [CR, LF]) @ ''*''"
    by (metis append.assoc append_Cons append_Nil)
  then have "rd @ butlast rest = msg @ CR # LF # ''done'' @ [CR, LF]" by simp
  then have "set rd \<subseteq> set (msg @ CR # LF # ''done'' @ [CR, LF])"
    by (metis set_append Un_upper1)
  with assms(3) show ?thesis by auto
qed

text \<open>The complete buffer: it is detected, and the strips leave the answer.\<close>

lemma framing_strips:
  assumes "\<not> contains_crlf msg" and "CHR ''d'' \<notin> set msg"
  shows "hd (split_crlf (msg @ CR # LF # ''done'' @ [CR, LF] @ ''*'')) = msg"
    and "CHR ''*'' \<in> set (last (split_crlf (msg @ CR # LF # ''done'' @ [CR, LF] @ ''*'')))"
    and "rstrip [CR, LF, CHR ''*'', CHR '' '']
           (lstrip (msg @ [CR, LF]) (msg @ CR # LF # ''done'' @ [CR, LF] @ ''*'')) = ''done''"
proof -
  have sp: "split_crlf (msg @ CR # LF # ''done'' @ [CR, LF] @ ''*'') = [msg, ''done'', ''*'']"
    by (simp add: split_crlf_line [OF assms(1)])
  show "hd (split_crlf (msg @ CR # LF # ''done'' @ [CR, LF] @ ''*'')) = msg"
    and "CHR ''*'' \<in> set (last (split_crlf (msg @ CR # LF # ''done'' @ [CR, LF] @ ''*'')))"
    by (simp_all only: sp) simp_all
  have "dropWhile (\<lambda>c. c \<in> set (msg @ [CR, LF])) (msg @ (CR # LF # ''done'' @ [CR, LF] @ ''*''))
      = dropWhile (\<lambda>c. c \<in> set (msg @ [CR, LF])) (CR # LF # ''done'' @ [CR, LF] @ ''*'')"
    by (rule dropWhile_append2) simp
  then have "lstrip (msg @ [CR, LF]) (msg @ CR # LF # ''done'' @ [CR, LF] @ ''*'') =
      ''done'' @ [CR, LF] @ ''*''"
    using assms(2) by (simp add: lstrip_def)
  then show "rstrip [CR, LF, CHR ''*'', CHR '' '']
           (lstrip (msg @ [CR, LF]) (msg @ CR # LF # ''done'' @ [CR, LF] @ ''*'')) = ''done''"
    by (simp add: rstrip_def)
qed

text \<open>
  A transport that delivers: \<open>pending\<close> gives the bytes of a state of the world that are
  still to be read. The poll reports data exactly when bytes are pending, and neither
  it nor a read moves the clock; a read stores the next \<open>nread\<close> pending bytes, at least
  one, at the start of the buffer. Then the loop, started with what it has read so far
  and the rest of the answer pending, returns \<open>done\<close>.
\<close>

lemma loop_read_from_delivers:
  fixes drv :: "'d driver" and pending :: "'d \<Rightarrow> string"
  assumes h: "handle s = Some h" and t: "timeout s = 10"
    and a: "is_ascii msg" and crlf: "\<not> contains_crlf msg" and nul: "CHR 0x00 \<notin> set msg"
    and star: "CHR ''*'' \<notin> set msg" and d: "CHR ''d'' \<notin> set msg"
    and dec: "\<And>b. is_ascii b \<Longrightarrow> decode drv b = Inr b"
    and av: "\<And>d. (fst (AotfIsReadDataAvailable drv h d) \<noteq> 0) = (pending d \<noteq> []) \<and>
                pending (snd (AotfIsReadDataAvailable drv h d)) = pending d \<and>
                perf_counter drv (snd (AotfIsReadDataAvailable drv h d)) = perf_counter drv d"
    and rd: "\<And>d. pending d \<noteq> [] \<Longrightarrow>
                (case AotfRead drv h 256 d of
                   ((ret, buffer, nread), d') \<Rightarrow>
                     ret \<noteq> 0 \<and> 0 < nread \<and> nread \<le> length buffer \<and>
                     pending d = take nread buffer @ pending d' \<and>
                     perf_counter drv d' = perf_counter drv d)"
  shows "got @ pending (dev w) = msg @ CR # LF # ''done'' @ [CR, LF] @ ''*'' \<Longrightarrow>
     pending (dev w) \<noteq> [] \<Longrightarrow> perf_counter drv (dev w) = start \<Longrightarrow>
     \<exists>w'. loop_read_from drv s msg start got w = Some (Inr ''done'', w') \<and> sent w' = sent w"
proof (induction "length (pending (dev w))" arbitrary: w got rule: less_induct)
  case less
  let ?R = "msg @ CR # LF # ''done'' @ [CR, LF] @ ''*''"
  let ?d1 = "snd (AotfIsReadDataAvailable drv h (dev w))"
  let ?w1 = "w\<lparr>dev := ?d1\<rparr>"
  let ?d2 = "snd (AotfIsReadDataAvailable drv h ?d1)"
  from av [of "dev w"] less.prems(2)
  have a1: "fst (AotfIsReadDataAvailable drv h (dev w)) \<noteq> 0" and p1: "pending ?d1 = pending (dev w)"
    and c1: "perf_counter drv ?d1 = perf_counter drv (dev w)" by simp_all
  from av [of ?d1] p1 less.prems(2)
  have a2: "fst (AotfIsReadDataAvailable drv h ?d1) \<noteq> 0" and p2: "pending ?d2 = pending (dev w)"
    and c2: "perf_counter drv ?d2 = perf_counter drv ?d1" by simp_all
  obtain ret buffer nread d3 where r: "AotfRead drv h 256 ?d2 = ((ret, buffer, nread), d3)"
    by (cases "AotfRead drv h 256 ?d2") auto
  from rd [of ?d2] p2 less.prems(2) r
  have ok: "ret \<noteq> 0" and n0: "0 < nread" and nl: "nread \<le> length buffer"
    and p3: "pending (dev w) = take nread buffer @ pending d3"
    and c3: "perf_counter drv d3 = perf_counter drv ?d2" by simp_all
  let ?p = "take nread buffer"
  have asc: "is_ascii ?R" using a by (simp add: is_ascii_def)
  have nn: "CHR 0x00 \<notin> set ?R" using nul by simp
  have sub: "set ?p \<subseteq> set ?R"
  proof -
    have "set ?p \<subseteq> set (got @ ?p @ pending d3)" by auto
    with less.prems(1) p3 show ?thesis by simp
  qed
  have bv: "take nread (takeWhile (\<lambda>c. c \<noteq> CHR 0x00) buffer) = ?p"
    using nl nn sub by (intro buffer_value) auto
  have dc: "decode drv (take nread (takeWhile (\<lambda>c. c \<noteq> CHR 0x00) buffer)) = Inr ?p"
    unfolding bv by (rule dec) (rule is_ascii_subset [OF asc sub])
  have ia: "is_data_available drv s w = (Inr True, ?w1)"
    using a1 by (simp add: is_data_available_open [OF h])
  have pr: "priv_read drv s 256 ?w1 = (Inr ?p, ?w1\<lparr>dev := d3\<rparr>)"
    using a2 r by (intro priv_read_open [OF h _ _ ok dc]) simp_all
  let ?w3 = "w\<lparr>dev := d3\<rparr>"
  have w3: "?w1\<lparr>dev := d3\<rparr> = ?w3" by simp
  have cl: "perf_counter drv d3 = start" using c1 c2 c3 less.prems(3) by simp
  have full: "(got @ ?p) @ pending d3 = ?R" using less.prems(1) p3 by simp
  have pne: "?p \<noteq> []" using n0 nl by (cases buffer) auto
  show ?case
  proof (cases "pending d3 = []")
    case True
    with full have e: "got @ ?p = ?R" by simp
    have "loop_read_from drv s msg start got w = Some (Inr ''done'', ?w3)"
      using framing_strips [OF crlf d]
      by (subst loop_read_from.simps)
         (simp add: ia pr w3 check_message_done_value e del: split_crlf.simps)
    then show ?thesis by simp
  next
    case False
    have ns: "CHR ''*'' \<notin> set (got @ ?p)"
      using full False star by (rule no_asterisk_before_end)
    have nd: "\<not> (hd (split_crlf (got @ ?p)) = msg \<and> CHR ''*'' \<in> set (last (split_crlf (got @ ?p))))"
      using ns last_split_crlf_subset [of "got @ ?p"] by blast
    have step: "loop_read_from drv s msg start got w = loop_read_from drv s msg start (got @ ?p) ?w3"
      using nd
      by (subst loop_read_from.simps)
         (auto simp add: ia pr w3 check_message_done_value cl t simp del: split_crlf.simps)
    have "length (pending (dev w)) = length ?p + length (pending d3)"
      using p3 by (metis length_append)
    then have lt: "length (pending (dev ?w3)) < length (pending (dev w))"
      using pne by simp
    from less.hyps [OF lt, of "got @ ?p"] full False cl
    obtain w' where "loop_read_from drv s msg start (got @ ?p) ?w3 = Some (Inr ''done'', w')"
      and "sent w' = sent ?w3" by auto
    with step show ?thesis by simp
  qed
qed

lemma sim_portions_simps:
  "AotfWrite (sim_portions k r) h n m d = (1, d\<lparr>rxbuf := rxbuf d @ r (take n m)\<rparr>)"
  "AotfRead (sim_portions k r) h len d =
     ((1, take (min k len) (rxbuf d), min (min k len) (length (rxbuf d))),
      d\<lparr>rxbuf := drop (min k len) (rxbuf d)\<rparr>)"
  "AotfIsReadDataAvailable (sim_portions k r) h d = (if rxbuf d = [] then 0 else 1, d)"
  "perf_counter (sim_portions k r) d = clock d"
  "encode (sim_portions k r) = utf8_encode"
  "decode (sim_portions k r) = utf8_decode"
  by (simp_all add: sim_portions_def sim_def)

lemma priv_write_sim:
  "handle s = Some h \<Longrightarrow> is_ascii m \<Longrightarrow>
   priv_write (sim r) s m w =
     (Inr (), w\<lparr>dev := (dev w)\<lparr>rxbuf := rxbuf (dev w) @ r m\<rparr>, sent := sent w @ [m]\<rparr>)"
  by (simp add: priv_write_def check_handle_def sim_simps utf8_encode_ascii)

lemma priv_read_sim:
  assumes "handle s = Some h" and "rxbuf (dev w) \<noteq> []" and "length (rxbuf (dev w)) \<le> 256"
    and "CHR 0x00 \<notin> set (rxbuf (dev w))" and "is_ascii (rxbuf (dev w))"
  shows "priv_read (sim r) s 256 w = (Inr (rxbuf (dev w)), w\<lparr>dev := (dev w)\<lparr>rxbuf := []\<rparr>\<rparr>)"
proof -
  have tw: "takeWhile (\<lambda>c. c \<noteq> CHR 0x00) (rxbuf (dev w)) = rxbuf (dev w)"
    using assms(4) by (simp add: takeWhile_eq_all_conv) metis
  show ?thesis
    using assms(1-3)
    by (simp add: priv_read_def check_handle_def is_data_available_open sim_simps tw
        utf8_decode_ascii [OF assms(5)])
qed

text \<open>One iteration of the loop when the simulated device holds at most one read of data.\<close>

lemma loop_read_from_sim_data:
  assumes h: "handle s = Some h" and ne: "rxbuf (dev w) \<noteq> []" and le: "length (rxbuf (dev w)) \<le> 256"
    and nul: "CHR 0x00 \<notin> set (rxbuf (dev w))" and asc: "is_ascii (rxbuf (dev w))"
  shows "loop_read_from (sim r) s msg start rd w =
     (let rd' = rd @ rxbuf (dev w); w2 = w\<lparr>dev := (dev w)\<lparr>rxbuf := []\<rparr>\<rparr>
      in if hd (split_crlf rd') = msg \<and> CHR ''*'' \<in> set (last (split_crlf rd'))
         then Some (Inr (rstrip [CR, LF, CHR ''*'', CHR '' ''] (lstrip (msg @ [CR, LF]) rd')), w2)
         else if clock (dev w) - start > timeout s then Some (Inr [], w2)
         else loop_read_from (sim r) s msg start rd' w2)"
proof -
  have a: "is_data_available (sim r) s w = (Inr True, w)"
    using ne by (simp add: is_data_available_open [OF h] sim_simps)
  show ?thesis
    by (subst loop_read_from.simps)
       (simp add: a priv_read_sim [OF h ne le nul asc] check_message_done_value Let_def sim_simps)
qed

lemma loop_read_from_sim_quiet:
  assumes h: "handle s = Some h" and t: "timeout s = 10"
    and e: "rxbuf (dev w) = []" and c: "clock (dev w) = start"
  shows "\<exists>w'. loop_read_from (sim r) s msg start rd w = Some (Inr [], w') \<and>
           clock (dev w') = start + 101 / 10 \<and> sent w' = sent w"
proof -
  have "\<exists>w'. loop_read_from (sim r) s msg start rd w = Some (Inr [], w') \<and>
          perf_counter (sim r) (dev w') = start + 101 / 10 \<and> rxbuf (dev w') = [] \<and>
          sent w' = sent w \<and> stdout w' = stdout w"
    by (rule loop_read_from_quiet [where Q = "\<lambda>d. rxbuf d = []" and n = 100, OF h t])
       (simp_all add: sim_simps e c)
  then show ?thesis by (auto simp: sim_simps)
qed

text \<open>
  C1, as the claim states it, fails: when the device ends its answer with the terminator
  (\<open>done\r\n*\r\n\<close>), the last piece of the buffer is empty, completion is never detected,
  and the query returns the empty string at the timeout, not \<open>done\<close>.
\<close>

theorem query_framing_counterexample:
  "map_option fst (query (sim (echo_then (''done'' @ [CR, LF] @ ''*'' @ [CR, LF])))
      (opened table0 1) ''status'' world0) = Some (Inr [])"
proof -
  let ?r = "echo_then (''done'' @ [CR, LF] @ ''*'' @ [CR, LF])"
  let ?s = "opened table0 1"
  let ?R = "''status'' @ [CR, LF] @ ''done'' @ [CR, LF] @ ''*'' @ [CR, LF]"
  let ?w1 = "\<lparr>dev = \<lparr>clock = 0, rxbuf = ?R\<rparr>, sent = [''status'' @ [CR]], stdout = []\<rparr>"
  let ?w2 = "\<lparr>dev = \<lparr>clock = 0, rxbuf = []\<rparr>, sent = [''status'' @ [CR]], stdout = []\<rparr>"
  have h: "handle ?s = Some 1" by (simp add: opened_def)
  have t: "timeout ?s = 10" by (simp add: opened_def AOTF_init_def)
  have pw: "priv_write (sim ?r) ?s (''status'' @ [CR]) world0 = (Inr (), ?w1)"
    by (simp add: priv_write_sim [OF h] world0_def echo_then_def is_ascii_def)
  have l1: "loop_read_from (sim ?r) ?s ''status'' 0 [] ?w1 =
      loop_read_from (sim ?r) ?s ''status'' 0 ?R ?w2"
    by (subst loop_read_from_sim_data [OF h]) (simp_all add: t is_ascii_def)
  obtain w' where "loop_read_from (sim ?r) ?s ''status'' 0 ?R ?w2 = Some (Inr [], w')"
    using loop_read_from_sim_quiet [OF h t, of ?w2 0 ?r "''status''" ?R] by auto
  then show ?thesis
    using pw l1 by (simp add: query_def loop_read_def sim_simps world0_def)
qed

text \<open>
  C1, amended. For every ASCII command that holds no \<open>\r\n\<close>, no NUL, no asterisk and no
  letter \<open>d\<close>, on an open controller with the timeout of 10 s, and for every transport
  that delivers without delay: the write is accepted and leaves exactly the command,
  \<open>\r\n\<close> and \<open>done\r\n*\<close> pending (the line with the asterisk last, no terminator after
  it); data is reported available exactly while bytes are pending; every read hands over
  the next pending bytes, at least one, in portions of any size; the clock does not move
  meanwhile; and the runtime decodes ASCII bytes to the same text. Then the query returns
  exactly \<open>done\<close>, having passed the command and a carriage return to the transport.
\<close>

theorem query_framing_round_trip:
  fixes drv :: "'d driver" and pending :: "'d \<Rightarrow> string"
  assumes h: "handle s = Some h" and t: "timeout s = 10"
    and a: "is_ascii msg" and crlf: "\<not> contains_crlf msg" and nul: "CHR 0x00 \<notin> set msg"
    and star: "CHR ''*'' \<notin> set msg" and d: "CHR ''d'' \<notin> set msg"
    and dec: "\<And>b. is_ascii b \<Longrightarrow> decode drv b = Inr b"
    and wr: "fst (AotfWrite drv h (length (msg @ [CR])) (encode drv (msg @ [CR])) (dev w)) \<noteq> 0 \<and>
             pending (snd (AotfWrite drv h (length (msg @ [CR])) (encode drv (msg @ [CR])) (dev w)))
               = msg @ [CR, LF] @ ''done'' @ [CR, LF] @ ''*'' \<and>
             perf_counter drv (snd (AotfWrite drv h (length (msg @ [CR])) (encode drv (msg @ [CR])) (dev w)))
               = perf_counter drv (dev w)"
    and av: "\<And>d. (fst (AotfIsReadDataAvailable drv h d) \<noteq> 0) = (pending d \<noteq> []) \<and>
                pending (snd (AotfIsReadDataAvailable drv h d)) = pending d \<and>
                perf_counter drv (snd (AotfIsReadDataAvailable drv h d)) = perf_counter drv d"
    and rd: "\<And>d. pending d \<noteq> [] \<Longrightarrow>
                (case AotfRead drv h 256 d of
                   ((ret, buffer, nread), d') \<Rightarrow>
                     ret \<noteq> 0 \<and> 0 < nread \<and> nread \<le> length buffer \<and>
                     pending d = take nread buffer @ pending d' \<and>
                     perf_counter drv d' = perf_counter drv d)"
  shows "\<exists>w'. query drv s msg w = Some (Inr ''done'', w') \<and> sent w' = sent w @ [msg @ [CR]]"
proof -
  let ?d1 = "snd (AotfWrite drv h (length (msg @ [CR])) (encode drv (msg @ [CR])) (dev w))"
  let ?w1 = "w\<lparr>dev := ?d1, sent := sent w @ [msg @ [CR]]\<rparr>"
  from wr have ok: "fst (AotfWrite drv h (length (msg @ [CR])) (encode drv (msg @ [CR])) (dev w)) \<noteq> 0"
    and p1: "pending ?d1 = msg @ [CR, LF] @ ''done'' @ [CR, LF] @ ''*''" by simp_all
  have pw: "priv_write drv s (msg @ [CR]) w = (Inr (), ?w1)"
    using ok by (simp add: priv_write_def check_handle_def h Let_def case_prod_beta)
  have "\<exists>w'. loop_read_from drv s msg (perf_counter drv (dev ?w1)) [] ?w1 = Some (Inr ''done'', w') \<and>
          sent w' = sent ?w1"
    using p1
    by (intro loop_read_from_delivers [where pending = pending, OF h t a crlf nul star d dec av rd])
       simp_all
  then obtain w' where
    l: "loop_read_from drv s msg (perf_counter drv (dev ?w1)) [] ?w1 = Some (Inr ''done'', w')"
    and s: "sent w' = sent ?w1" by blast
  have "query drv s msg w = Some (Inr ''done'', w')"
    using l by (simp add: query_def pw loop_read_def)
  then show ?thesis using s by auto
qed

theorem query_framing_round_trip_witness:
  "handle (opened table0 1) = Some 1 \<and> timeout (opened table0 1) = 10 \<and>
   is_ascii ''status'' \<and> \<not> contains_crlf ''status'' \<and> CHR 0x00 \<notin> set ''status'' \<and>
   CHR ''*'' \<notin> set ''status'' \<and> CHR ''d'' \<notin> set ''status'' \<and>
   map_option fst
     (query (sim_portions 2 (echo_then (''done'' @ [CR, LF] @ ''*''))) (opened table0 1)
        ''status'' world0) = Some (Inr ''done'')"
proof -
  let ?drv = "sim_portions 2 (echo_then (''done'' @ [CR, LF] @ ''*''))"
  have a: "handle (opened table0 1) = Some 1" by (simp add: opened_def)
  have b: "timeout (opened table0 1) = 10" by (simp add: opened_def AOTF_init_def)
  have c: "is_ascii ''status''" by (simp add: is_ascii_def)
  have d: "\<not> contains_crlf ''status''" by simp
  have e: "CHR 0x00 \<notin> set ''status''" "CHR ''*'' \<notin> set ''status''" "CHR ''d'' \<notin> set ''status''"
    by simp_all
  have "\<exists>w'. query ?drv (opened table0 1) ''status'' world0 = Some (Inr ''done'', w') \<and>
      sent w' = sent world0 @ [''status'' @ [CR]]"
  proof (rule query_framing_round_trip [where pending = rxbuf, OF a b c d e])
    show "\<And>b. is_ascii b \<Longrightarrow> decode ?drv b = Inr b"
      by (simp add: sim_portions_simps utf8_decode_ascii)
    show "fst (AotfWrite ?drv 1 (length (''status'' @ [CR])) (encode ?drv (''status'' @ [CR])) (dev world0)) \<noteq> 0 \<and>
       rxbuf (snd (AotfWrite ?drv 1 (length (''status'' @ [CR])) (encode ?drv (''status'' @ [CR])) (dev world0)))
         = ''status'' @ [CR, LF] @ ''done'' @ [CR, LF] @ ''*'' \<and>
       perf_counter ?drv (snd (AotfWrite ?drv 1 (length (''status'' @ [CR])) (encode ?drv (''status'' @ [CR])) (dev world0)))
         = perf_counter ?drv (dev world0)"
      by (simp add: sim_portions_simps world0_def echo_then_def)
    show "\<And>d. (fst (AotfIsReadDataAvailable ?drv 1 d) \<noteq> 0) = (rxbuf d \<noteq> []) \<and>
       rxbuf (snd (AotfIsReadDataAvailable ?drv 1 d)) = rxbuf d \<and>
       perf_counter ?drv (snd (AotfIsReadDataAvailable ?drv 1 d)) = perf_counter ?drv d"
      by (simp add: sim_portions_simps)
    show "\<And>d. rxbuf d \<noteq> [] \<Longrightarrow>
       (case AotfRead ?drv 1 256 d of
          ((ret, buffer, nread), d') \<Rightarrow>
            ret \<noteq> 0 \<and> 0 < nread \<and> nread \<le> length buffer \<and>
            rxbuf d = take nread buffer @ rxbuf d' \<and>
            perf_counter ?drv d' = perf_counter ?drv d)"
      by (simp add: sim_portions_simps min_def)
  qed
  then show ?thesis using a b c d e by auto
qed

text \<open>
  Why the command may hold no \<open>d\<close>: the left strip takes a set of characters, not a
  prefix, and after the echo it goes on through every leading character of the answer
  that occurs in the command. With the command \<open>BoardId Serial\<close> the answer \<open>done\<close>
  comes back as \<open>ne\<close>.
\<close>

lemma query_lstrip_eats_answer:
  "query (sim (echo_then (''done'' @ [CR, LF] @ ''*''))) (opened table0 1) ''BoardId Serial'' world0 =
     Some (Inr ''ne'', world0\<lparr>sent := [''BoardId Serial'' @ [CR]]\<rparr>)"
proof -
  let ?r = "echo_then (''done'' @ [CR, LF] @ ''*'')"
  let ?s = "opened table0 1"
  have h: "handle ?s = Some 1" by (simp add: opened_def)
  have pw: "priv_write (sim ?r) ?s (''BoardId Serial'' @ [CR]) world0 =
      (Inr (), world0\<lparr>dev := (dev world0)\<lparr>rxbuf := ''BoardId Serial'' @ [CR, LF] @ ''done'' @ [CR, LF] @ ''*''\<rparr>,
                    sent := [''BoardId Serial'' @ [CR]]\<rparr>)"
    by (simp add: priv_write_sim [OF h] echo_then_def world0_def is_ascii_def)
  show ?thesis
    using pw
    apply (simp add: query_def loop_read_def sim_simps)
    apply (subst loop_read_from_sim_data [OF h])
    apply (simp_all add: world0_def Let_def lstrip_def rstrip_def is_ascii_def)
    done
qed

text \<open>
  Why the command may hold no asterisk: when a read ends exactly at the end of the echoed
  command, the buffer is one piece that is the command and holds an asterisk, so it
  counts as complete, and the strips leave nothing. Here the device hands over two bytes
  per read and the command is \<open>a*\<close>.
\<close>

lemma query_asterisk_in_command:
  "map_option fst
     (query (sim_portions 2 (echo_then (''done'' @ [CR, LF] @ ''*''))) (opened table0 1)
        ''a*'' world0) = Some (Inr [])"
proof -
  let ?drv = "sim_portions 2 (echo_then (''done'' @ [CR, LF] @ ''*''))"
  let ?s = "opened table0 1"
  have h: "handle ?s = Some 1" by (simp add: opened_def)
  show ?thesis
    apply (simp add: query_def priv_write_def check_handle_def h loop_read_def
        sim_portions_simps world0_def echo_then_def)
    apply (subst loop_read_from.simps)
    apply (simp add: is_data_available_open [OF h] priv_read_def check_handle_def h
        sim_portions_simps check_message_done_value lstrip_def rstrip_def)
    done
qed

text \<open>
  Why the command is ASCII: the library is given the number of code points as the number
  of bytes. The command \<open>U+00E9\<close> with its carriage return is three bytes, of which the
  device receives two, without the carriage return.
\<close>

lemma write_non_ascii_loses_terminator:
  "rxbuf (dev (snd (priv_write (sim id) (opened table0 1) ([CHR 0xE9] @ [CR]) world0))) =
     [CHR 0xC3, CHR 0xA9]"
  by code_simp

end
